theory Spec2Isabelle
  imports Complex_Main
begin

section \<open>Values of the Python program\<close>

text \<open>
  The server of \<^verbatim>\<open>flask_server.py\<close> receives a JSON payload, asks a language model
  (\<^verbatim>\<open>payout_chain\<close>) for a Pokemon name and a payout, and appends a row to a Google sheet.
  A string is the list of its characters; the model covers the characters below 256.
\<close>

datatype pytype = NoneType | BoolT | IntT | FloatT | StrT | ListT | DictT

text \<open>A JSON value of the request, as \<^verbatim>\<open>request.json\<close> gives it. The association list of
  \<open>JObj\<close> is a Python dict: it holds each key once.\<close>

datatype jval =
    JNull
  | JBool bool
  | JInt int
  | JFloat real
  | JStr string
  | JArr "jval list"
  | JObj "(string \<times> jval) list"

fun type_of :: "jval \<Rightarrow> pytype" where
  "type_of JNull = NoneType"
| "type_of (JBool b) = BoolT"
| "type_of (JInt i) = IntT"
| "type_of (JFloat r) = FloatT"
| "type_of (JStr s) = StrT"
| "type_of (JArr xs) = ListT"
| "type_of (JObj kvs) = DictT"

text \<open>Python's truth value, as \<^verbatim>\<open>not v\<close> and \<^verbatim>\<open>a or b\<close> read it.\<close>

fun truthy :: "jval \<Rightarrow> bool" where
  "truthy JNull = False"
| "truthy (JBool b) = b"
| "truthy (JInt i) = (i \<noteq> 0)"
| "truthy (JFloat r) = (r \<noteq> 0)"
| "truthy (JStr s) = (s \<noteq> [])"
| "truthy (JArr xs) = (xs \<noteq> [])"
| "truthy (JObj kvs) = (kvs \<noteq> [])"

text \<open>
  A value of a field of the model's answer. The pipeline reads it in two ways only, by its
  truth value and by \<^verbatim>\<open>str(v)\<close>: a value that is neither \<^verbatim>\<open>None\<close> nor a string (a number,
  a boolean, a list, a dict) is given by these two, the text being the one Python's
  \<^verbatim>\<open>str\<close> produces for it.
\<close>

datatype pyval =
    PyNone
  | PyStr string
  | PyOther bool string

fun field_truthy :: "pyval \<Rightarrow> bool" where
  "field_truthy PyNone = False"
| "field_truthy (PyStr s) = (s \<noteq> [])"
| "field_truthy (PyOther b t) = b"

fun py_str :: "pyval \<Rightarrow> string" where
  "py_str PyNone = ''None''"
| "py_str (PyStr s) = s"
| "py_str (PyOther b t) = t"

text \<open>What \<^verbatim>\<open>payout_chain.invoke\<close> returns: the parsed JSON of the model's answer, a dict
  of fields or a value of another type (given by its type and truth value).\<close>

datatype response =
    Dict "(string \<times> pyval) list"
  | NotDict pytype bool

text \<open>Exceptions. \<open>LibraryError\<close> is any exception raised inside Flask, LangChain or gspread,
  with the text of \<^verbatim>\<open>str(e)\<close>; \<open>SubscriptError\<close> is the exception of \<^verbatim>\<open>v[..]\<close> on a value
  whose type does not support the subscript.\<close>

datatype pyexc =
    ValueError string
  | PyException string
  | AttributeError pytype string
  | KeyError string
  | SubscriptError pytype
  | LibraryError string

text \<open>An error text of a result: a literal, or an f-string that ends in \<^verbatim>\<open>{str(e)}\<close>.\<close>

datatype errmsg =
    Text string
  | TextExc string pyexc

text \<open>\<^verbatim>\<open>v.get(k, d)\<close>: only a dict has the method.\<close>

definition dict_get :: "jval \<Rightarrow> string \<Rightarrow> jval \<Rightarrow> pyexc + jval" where
  "dict_get v k d =
     (case v of
        JObj kvs \<Rightarrow> Inr (case map_of kvs k of None \<Rightarrow> d | Some x \<Rightarrow> x)
      | _ \<Rightarrow> Inl (AttributeError (type_of v) ''get''))"

text \<open>\<^verbatim>\<open>v[:200]\<close>: a string and a list can be sliced, any other JSON value raises.\<close>

definition slice200 :: "jval \<Rightarrow> pyexc + jval" where
  "slice200 v =
     (case v of
        JStr s \<Rightarrow> Inr (JStr (take 200 s))
      | JArr xs \<Rightarrow> Inr (JArr (take 200 xs))
      | _ \<Rightarrow> Inl (SubscriptError (type_of v)))"

text \<open>\<^verbatim>\<open>email_response.get(k)\<close> and \<^verbatim>\<open>email_response[k]\<close> on the model's answer;
  \<^verbatim>\<open>email_response\<close> is \<^verbatim>\<open>None\<close> before the first answer.\<close>

definition response_truthy :: "response \<Rightarrow> bool" where
  "response_truthy r = (case r of Dict kvs \<Rightarrow> kvs \<noteq> [] | NotDict ty b \<Rightarrow> b)"

definition response_get :: "response \<Rightarrow> string \<Rightarrow> pyexc + pyval" where
  "response_get r k =
     (case r of
        Dict kvs \<Rightarrow> Inr (case map_of kvs k of None \<Rightarrow> PyNone | Some x \<Rightarrow> x)
      | NotDict ty b \<Rightarrow> Inl (AttributeError ty ''get''))"

definition response_item :: "response option \<Rightarrow> string \<Rightarrow> pyexc + pyval" where
  "response_item r k =
     (case r of
        None \<Rightarrow> Inl (SubscriptError NoneType)
      | Some (NotDict ty b) \<Rightarrow> Inl (SubscriptError ty)
      | Some (Dict kvs) \<Rightarrow>
          (case map_of kvs k of None \<Rightarrow> Inl (KeyError k) | Some x \<Rightarrow> Inr x))"

subsection \<open>Strings and time\<close>

text \<open>\<^verbatim>\<open>str.strip()\<close> removes the whitespace of \<^verbatim>\<open>str.isspace\<close> at both ends; below 256
  these are the characters 9 to 13, 28 to 32, 133 and 160.\<close>

definition is_space :: "char \<Rightarrow> bool" where
  "is_space c =
     (let n = (of_char c :: nat)
      in (9 \<le> n \<and> n \<le> 13) \<or> (28 \<le> n \<and> n \<le> 32) \<or> n = 133 \<or> n = 160)"

definition strip :: "string \<Rightarrow> string" where
  "strip s = rev (dropWhile is_space (rev (dropWhile is_space s)))"

record datetime =
  year :: nat
  month :: nat
  day :: nat
  hour :: nat
  minute :: nat
  second :: nat
  microsecond :: nat

text \<open>The values \<^verbatim>\<open>datetime.now()\<close> can give; the year has four digits.\<close>

definition valid_datetime :: "datetime \<Rightarrow> bool" where
  "valid_datetime d =
     (1000 \<le> year d \<and> year d \<le> 9999 \<and> 1 \<le> month d \<and> month d \<le> 12 \<and>
      1 \<le> day d \<and> day d \<le> 31 \<and> hour d < 24 \<and> minute d < 60 \<and> second d < 60 \<and>
      microsecond d < 1000000)"

definition digit :: "nat \<Rightarrow> char" where
  "digit n = ''0123456789'' ! (n mod 10)"

text \<open>A number in decimal, and in decimal with zeros in front up to a width, as
  \<^verbatim>\<open>%02d\<close> and \<^verbatim>\<open>%04d\<close> print it.\<close>

fun decimal :: "nat \<Rightarrow> string" where
  "decimal n = (if n < 10 then [digit n] else decimal (n div 10) @ [digit n])"

definition zero_pad :: "nat \<Rightarrow> nat \<Rightarrow> string" where
  "zero_pad width n = replicate (width - length (decimal n)) CHR ''0'' @ decimal n"

text \<open>\<^verbatim>\<open>strftime("%Y-%m-%d %H:%M:%S")\<close>.\<close>

definition strftime :: "datetime \<Rightarrow> string" where
  "strftime d =
     zero_pad 4 (year d) @ ''-'' @ zero_pad 2 (month d) @ ''-'' @ zero_pad 2 (day d) @ '' '' @
     zero_pad 2 (hour d) @ '':'' @ zero_pad 2 (minute d) @ '':'' @ zero_pad 2 (second d)"

text \<open>\<^verbatim>\<open>isoformat()\<close>: the microseconds are printed when they are not zero.\<close>

definition isoformat :: "datetime \<Rightarrow> string" where
  "isoformat d =
     zero_pad 4 (year d) @ ''-'' @ zero_pad 2 (month d) @ ''-'' @ zero_pad 2 (day d) @ ''T'' @
     zero_pad 2 (hour d) @ '':'' @ zero_pad 2 (minute d) @ '':'' @ zero_pad 2 (second d) @
     (if microsecond d = 0 then [] else ''.'' @ zero_pad 6 (microsecond d))"

text \<open>The shape \<^verbatim>\<open>YYYY-MM-DD HH:MM:SS\<close>.\<close>

definition is_digit :: "char \<Rightarrow> bool" where
  "is_digit c = (c \<in> set ''0123456789'')"

fun timestamp_format :: "string \<Rightarrow> bool" where
  "timestamp_format [y1, y2, y3, y4, s1, m1, m2, s2, d1, d2, s3, h1, h2, s4, n1, n2, s5, c1, c2] =
     (is_digit y1 \<and> is_digit y2 \<and> is_digit y3 \<and> is_digit y4 \<and> s1 = CHR ''-'' \<and>
      is_digit m1 \<and> is_digit m2 \<and> s2 = CHR ''-'' \<and> is_digit d1 \<and> is_digit d2 \<and>
      s3 = CHR '' '' \<and> is_digit h1 \<and> is_digit h2 \<and> s4 = CHR '':'' \<and>
      is_digit n1 \<and> is_digit n2 \<and> s5 = CHR '':'' \<and> is_digit c1 \<and> is_digit c2)"
| "timestamp_format s = False"

section \<open>The outside world\<close>

text \<open>
  The language model, the Google Sheets service and the clock are outside the program.
  An environment fixes what each of them answers to its calls, numbered from 0 in the
  order the program makes them; the world keeps the rows of the worksheet
  \<^verbatim>\<open>Sale List\<close> and the trace of the calls made so far.
\<close>

datatype llm_reply =
    Raises string
  | Returns response

text \<open>How \<^verbatim>\<open>initialize_google_sheets\<close> can go: the file \<^verbatim>\<open>service_account.json\<close> is
  missing, the credentials or the opening of the sheet raise, the read of
  \<^verbatim>\<open>row_count\<close> raises, or the worksheet is opened.\<close>

datatype connect_outcome =
    NoServiceAccountFile
  | OpenRaises string
  | RowCountRaises string
  | Opened

text \<open>\<^verbatim>\<open>worksheet.append_row\<close> writes the row and returns, or raises; a call that raises
  may or may not have written the row (\<open>AppendRaises True\<close> when it has).\<close>

datatype append_outcome =
    Appended
  | AppendRaises bool string

record env =
  llm_at :: "nat \<Rightarrow> jval \<Rightarrow> llm_reply"
  connect_at :: "nat \<Rightarrow> connect_outcome"
  append_at :: "nat \<Rightarrow> string list \<Rightarrow> append_outcome"
  clock_at :: "nat \<Rightarrow> datetime"

datatype event =
    Invoke jval
  | Connect
  | Append "string list"
  | Now

record world =
  sheet :: "string list list"
  trace :: "event list"

fun is_Invoke :: "event \<Rightarrow> bool" where
  "is_Invoke (Invoke x) = True"
| "is_Invoke ev = False"

fun is_Connect :: "event \<Rightarrow> bool" where
  "is_Connect Connect = True"
| "is_Connect ev = False"

fun is_Append :: "event \<Rightarrow> bool" where
  "is_Append (Append r) = True"
| "is_Append ev = False"

fun is_Now :: "event \<Rightarrow> bool" where
  "is_Now Now = True"
| "is_Now ev = False"

definition calls :: "(event \<Rightarrow> bool) \<Rightarrow> world \<Rightarrow> nat" where
  "calls P w = length (filter P (trace w))"

definition record_call :: "event \<Rightarrow> world \<Rightarrow> world" where
  "record_call ev w = w\<lparr>trace := trace w @ [ev]\<rparr>"

text \<open>\<^verbatim>\<open>payout_chain.invoke({"email_body": email_body})\<close>.\<close>

definition invoke :: "env \<Rightarrow> jval \<Rightarrow> world \<Rightarrow> (pyexc + response) \<times> world" where
  "invoke e email_body w =
     (case llm_at e (calls is_Invoke w) email_body of
        Raises m \<Rightarrow> (Inl (LibraryError m), record_call (Invoke email_body) w)
      | Returns r \<Rightarrow> (Inr r, record_call (Invoke email_body) w))"

text \<open>\<^verbatim>\<open>datetime.now()\<close>.\<close>

definition now :: "env \<Rightarrow> world \<Rightarrow> datetime \<times> world" where
  "now e w = (clock_at e (calls is_Now w), record_call Now w)"

datatype gspread_client = Client

datatype worksheet = Worksheet

text \<open>\<^verbatim>\<open>worksheet.append_row(row)\<close>.\<close>

definition append_row :: "env \<Rightarrow> worksheet \<Rightarrow> string list \<Rightarrow> world \<Rightarrow> (pyexc + unit) \<times> world" where
  "append_row e ws row w =
     (let w1 = record_call (Append row) w
      in case append_at e (calls is_Append w) row of
           Appended \<Rightarrow> (Inr (), w1\<lparr>sheet := sheet w1 @ [row]\<rparr>)
         | AppendRaises written m \<Rightarrow>
             (Inl (LibraryError m), if written then w1\<lparr>sheet := sheet w1 @ [row]\<rparr> else w1))"


section \<open>The pipeline\<close>

subsection \<open>Results\<close>

text \<open>The dicts that \<^verbatim>\<open>analyze_with_llm\<close> returns; a key that a dict does not have is
  \<open>None\<close>.\<close>

record extracted =
  ex_pokemon_name :: pyval
  ex_payout :: pyval
  ex_timestamp :: "string option"

record financial =
  fin_payout :: string
  currency :: string

record product =
  product_name :: string
  category :: string

record analysis =
  email_type :: string
  confidence :: real
  extracted_data :: "extracted option"
  error :: "errmsg option"
  key_insights :: "string list option"
  financial_data :: "financial option"
  product_info :: "product option"
  recommendations :: "string list option"
  risk_assessment :: "string option"
  market_analysis :: "string option"

definition result :: "string \<Rightarrow> real \<Rightarrow> extracted option \<Rightarrow> errmsg option \<Rightarrow> analysis" where
  "result ty c d m =
     \<lparr>email_type = ty, confidence = c, extracted_data = d, error = m,
      key_insights = None, financial_data = None, product_info = None,
      recommendations = None, risk_assessment = None, market_analysis = None\<rparr>"

text \<open>How a block of the function ends: an exception leaves it, the function returns, or
  control goes on to the next statement.\<close>

datatype 'a flow =
    Raise pyexc
  | Return analysis
  | Next 'a

definition max_retries :: nat where
  "max_retries = 3"

text \<open>The dict \<^verbatim>\<open>{"pokemon_name": email_response["pokemon_name"], "payout":
  email_response["payout"]}\<close> of the raw answer.\<close>

definition raw_data :: "response option \<Rightarrow> pyexc + extracted" where
  "raw_data email_response =
     (case response_item email_response ''pokemon_name'' of
        Inl exc \<Rightarrow> Inl exc
      | Inr n \<Rightarrow>
          (case response_item email_response ''payout'' of
             Inl exc \<Rightarrow> Inl exc
           | Inr p \<Rightarrow> Inr \<lparr>ex_pokemon_name = n, ex_payout = p, ex_timestamp = None\<rparr>))"

subsection \<open>Extraction, lines 123 to 146\<close>

text \<open>The check of line 133, which raises \<^verbatim>\<open>ValueError\<close>; \<^verbatim>\<open>.get\<close> on an answer that is
  not a dict raises by itself.\<close>

definition validate_response :: "response \<Rightarrow> pyexc + unit" where
  "validate_response r =
     (if \<not> response_truthy r
      then Inl (ValueError ''Invalid LLM response - missing pokemon_name or payout'')
      else
        (case response_get r ''pokemon_name'' of
           Inl exc \<Rightarrow> Inl exc
         | Inr n \<Rightarrow>
             if \<not> field_truthy n
             then Inl (ValueError ''Invalid LLM response - missing pokemon_name or payout'')
             else
               (case response_get r ''payout'' of
                  Inl exc \<Rightarrow> Inl exc
                | Inr p \<Rightarrow>
                    if \<not> field_truthy p
                    then Inl (ValueError ''Invalid LLM response - missing pokemon_name or payout'')
                    else Inr ())))"

text \<open>One pass through the \<^verbatim>\<open>try\<close> of lines 128 to 136, for a reply of the model: the
  exception that the handler catches, or the answer that leaves the loop.\<close>

definition attempt_outcome :: "llm_reply \<Rightarrow> pyexc + response" where
  "attempt_outcome rep =
     (case rep of
        Raises m \<Rightarrow> Inl (LibraryError m)
      | Returns r \<Rightarrow> (case validate_response r of Inl exc \<Rightarrow> Inl exc | Inr u \<Rightarrow> Inr r))"

definition llm_error :: "pyexc \<Rightarrow> analysis" where
  "llm_error exc =
     result ''llm_error'' 0.0 None
       (Some (TextExc ''LLM extraction failed after 3 attempts: '' exc))"

text \<open>The loop over \<^verbatim>\<open>range(max_retries)\<close>; \<open>email_response\<close> is the variable of that
  name, assigned by each call that returns.\<close>

fun llm_loop ::
  "env \<Rightarrow> jval \<Rightarrow> nat list \<Rightarrow> response option \<Rightarrow> world \<Rightarrow> (response option) flow \<times> world" where
  "llm_loop e email_body [] email_response w = (Next email_response, w)"
| "llm_loop e email_body (attempt # rest) email_response w =
     (case invoke e email_body w of
        (Inl exc, w1) \<Rightarrow>
          if attempt = max_retries - 1 then (Return (llm_error exc), w1)
          else llm_loop e email_body rest email_response w1
      | (Inr r, w1) \<Rightarrow>
          (case validate_response r of
             Inl exc \<Rightarrow>
               if attempt = max_retries - 1 then (Return (llm_error exc), w1)
               else llm_loop e email_body rest (Some r) w1
           | Inr u \<Rightarrow> (Next (Some r), w1)))"

subsection \<open>Connection, lines 53 to 85 and 148 to 169\<close>

definition initialize_google_sheets ::
  "env \<Rightarrow> world \<Rightarrow> (gspread_client option \<times> worksheet option) \<times> world" where
  "initialize_google_sheets e w =
     (case connect_at e (calls is_Connect w) of
        NoServiceAccountFile \<Rightarrow> ((None, None), record_call Connect w)
      | OpenRaises m \<Rightarrow> ((None, None), record_call Connect w)
      | RowCountRaises m \<Rightarrow> ((None, None), record_call Connect w)
      | Opened \<Rightarrow> ((Some Client, Some Worksheet), record_call Connect w))"

definition connect_message :: errmsg where
  "connect_message =
     TextExc ''Google Sheets connection failed after 3 attempts: ''
       (PyException ''Failed to initialize Google Sheets'')"

definition sheets_error :: "extracted \<Rightarrow> errmsg \<Rightarrow> analysis" where
  "sheets_error d m = result ''sheets_error'' 0.8 (Some d) (Some m)"

fun sheets_loop ::
  "env \<Rightarrow> response option \<Rightarrow> nat list \<Rightarrow> gspread_client option \<times> worksheet option \<Rightarrow> world \<Rightarrow>
   (gspread_client option \<times> worksheet option) flow \<times> world" where
  "sheets_loop e email_response [] cw w = (Next cw, w)"
| "sheets_loop e email_response (attempt # rest) cw w =
     (case initialize_google_sheets e w of
        (cw1, w1) \<Rightarrow>
          if snd cw1 \<noteq> None then (Next cw1, w1)
          else if attempt = max_retries - 1 then
            (case raw_data email_response of
               Inl exc \<Rightarrow> (Raise exc, w1)
             | Inr d \<Rightarrow>
                 (Return (sheets_error d connect_message), w1))
          else sheets_loop e email_response rest cw1 w1)"

subsection \<open>Normalisation and append, lines 171 to 267\<close>

definition clean_name :: "pyval \<Rightarrow> string" where
  "clean_name v =
     (let pokemon_name = strip (py_str v)
      in if pokemon_name = [] \<or> pokemon_name = ''N/A'' then ''Unknown Pokemon''
         else pokemon_name)"

definition clean_payout :: "pyval \<Rightarrow> string" where
  "clean_payout v =
     (let payout_amount = strip (py_str v)
      in if payout_amount = [] \<or> payout_amount = ''N/A'' then ''0'' else payout_amount)"

definition append_message :: "pyexc \<Rightarrow> errmsg" where
  "append_message exc = TextExc ''Failed to append to Google Sheets after 3 attempts: '' exc"

text \<open>The dict \<^verbatim>\<open>{"pokemon_name": pokemon_name, "payout": payout_amount}\<close> of the cleaned
  strings.\<close>

definition clean_data :: "string \<Rightarrow> string \<Rightarrow> extracted" where
  "clean_data n p = \<lparr>ex_pokemon_name = PyStr n, ex_payout = PyStr p, ex_timestamp = None\<rparr>"

definition append_error :: "extracted \<Rightarrow> errmsg \<Rightarrow> analysis" where
  "append_error d m = result ''append_error'' 0.8 (Some d) (Some m)"

definition pokemon_sale :: "string \<Rightarrow> string \<Rightarrow> string \<Rightarrow> analysis" where
  "pokemon_sale pokemon_name payout_amount current_time =
     \<lparr>email_type = ''pokemon_sale'', confidence = 0.95,
      extracted_data =
        Some \<lparr>ex_pokemon_name = PyStr pokemon_name, ex_payout = PyStr payout_amount,
              ex_timestamp = Some current_time\<rparr>,
      error = None,
      key_insights =
        Some [''Pokemon card sold: '' @ pokemon_name,
              ''Payout amount: $'' @ payout_amount,
              ''Sale recorded at: '' @ current_time],
      financial_data = Some \<lparr>fin_payout = payout_amount, currency = ''USD''\<rparr>,
      product_info = Some \<lparr>product_name = pokemon_name, category = ''pokemon_card''\<rparr>,
      recommendations =
        Some [''Sale recorded successfully in Google Sheets'',
              ''Track similar sales for market analysis''],
      risk_assessment = Some ''low'',
      market_analysis = Some ''Sale completed and recorded''\<rparr>"

fun append_loop ::
  "env \<Rightarrow> worksheet \<Rightarrow> string list \<Rightarrow> string \<Rightarrow> string \<Rightarrow> nat list \<Rightarrow> world \<Rightarrow>
   unit flow \<times> world" where
  "append_loop e ws row_data pokemon_name payout_amount [] w = (Next (), w)"
| "append_loop e ws row_data pokemon_name payout_amount (attempt # rest) w =
     (case append_row e ws row_data w of
        (Inr u, w1) \<Rightarrow> (Next (), w1)
      | (Inl exc, w1) \<Rightarrow>
          if attempt = max_retries - 1 then
            (Return (append_error (clean_data pokemon_name payout_amount)
                       (append_message exc)), w1)
          else append_loop e ws row_data pokemon_name payout_amount rest w1)"

text \<open>The \<^verbatim>\<open>try\<close> block of lines 173 to 245.\<close>

definition append_block ::
  "env \<Rightarrow> jval \<Rightarrow> response option \<Rightarrow> worksheet \<Rightarrow> world \<Rightarrow> unit flow \<times> world" where
  "append_block e email_details email_response ws w =
     (case now e w of
        (t, w1) \<Rightarrow>
          (let current_time = strftime t
           in (case response_item email_response ''pokemon_name'' of
                 Inl exc \<Rightarrow> (Raise exc, w1)
               | Inr n \<Rightarrow>
           (case response_item email_response ''payout'' of
                 Inl exc \<Rightarrow> (Raise exc, w1)
               | Inr p \<Rightarrow>
           (case dict_get email_details ''from'' (JStr ''N/A'') of
                 Inl exc \<Rightarrow> (Raise exc, w1)
               | Inr email_from \<Rightarrow>
           (case dict_get email_details ''subject'' (JStr ''N/A'') of
                 Inl exc \<Rightarrow> (Raise exc, w1)
               | Inr email_subject \<Rightarrow>
           (let pokemon_name = clean_name n;
                payout_amount = clean_payout p;
                row_data = [current_time, pokemon_name, payout_amount]
            in (case append_loop e ws row_data pokemon_name payout_amount [0..<max_retries] w1 of
                  (Next u, w2) \<Rightarrow>
                    (Return (pokemon_sale pokemon_name payout_amount current_time), w2)
                | (fl, w2) \<Rightarrow> (fl, w2)))))))))"

text \<open>Lines 171 to 267: the append with its handler, and the branch of a missing
  worksheet.\<close>

definition append_stage ::
  "env \<Rightarrow> jval \<Rightarrow> response option \<Rightarrow> worksheet option \<Rightarrow> world \<Rightarrow> unit flow \<times> world" where
  "append_stage e email_details email_response worksheet w =
     (case worksheet of
        Some ws \<Rightarrow>
          (case append_block e email_details email_response ws w of
             (Raise exc, w1) \<Rightarrow>
               (case raw_data email_response of
                  Inl exc2 \<Rightarrow> (Raise exc2, w1)
                | Inr d \<Rightarrow>
                    (Return (append_error d (TextExc ''Google Sheets append error: '' exc)), w1))
           | (fl, w1) \<Rightarrow> (fl, w1))
      | None \<Rightarrow>
          (case raw_data email_response of
             Inl exc \<Rightarrow> (Raise exc, w)
           | Inr d \<Rightarrow>
               (Return (sheets_error d (Text ''Google Sheets connection failed'')), w)))"

subsection \<open>\<^verbatim>\<open>analyze_with_llm\<close>\<close>

text \<open>Line 112: the text body, or the HTML body when the text body is false.\<close>

definition select_body :: "jval \<Rightarrow> pyexc + jval" where
  "select_body email_details =
     (case dict_get email_details ''body'' (JObj []) of
        Inl exc \<Rightarrow> Inl exc
      | Inr b \<Rightarrow>
          (case dict_get b ''textBody'' (JStr []) of
             Inl exc \<Rightarrow> Inl exc
           | Inr t \<Rightarrow>
               if truthy t then Inr t
               else
                 (case dict_get email_details ''body'' (JObj []) of
                    Inl exc \<Rightarrow> Inl exc
                  | Inr b2 \<Rightarrow> dict_get b2 ''htmlBody'' (JStr []))))"

definition no_content :: analysis where
  "no_content = result ''no_content'' 0.0 None (Some (Text ''No email body content found''))"

text \<open>Lines 121 to 267, from the first use of the chosen body.\<close>

definition run_pipeline :: "env \<Rightarrow> jval \<Rightarrow> jval \<Rightarrow> world \<Rightarrow> unit flow \<times> world" where
  "run_pipeline e email_details email_body w =
     (case slice200 email_body of
        Inl exc \<Rightarrow> (Raise exc, w)
      | Inr shown \<Rightarrow>
          (case llm_loop e email_body [0..<max_retries] None w of
             (Raise exc, w1) \<Rightarrow> (Raise exc, w1)
           | (Return a, w1) \<Rightarrow> (Return a, w1)
           | (Next email_response, w1) \<Rightarrow>
               (case sheets_loop e email_response [0..<max_retries] (None, None) w1 of
                  (Raise exc, w2) \<Rightarrow> (Raise exc, w2)
                | (Return a, w2) \<Rightarrow> (Return a, w2)
                | (Next (client, worksheet), w2) \<Rightarrow>
                    append_stage e email_details email_response worksheet w2)))"

definition error_result :: "pyexc \<Rightarrow> analysis" where
  "error_result exc = result ''error'' 0.0 None (Some (TextExc ''LLM Analysis Error: '' exc))"

definition analyze_with_llm :: "env \<Rightarrow> jval \<Rightarrow> jval \<Rightarrow> world \<Rightarrow> analysis option \<times> world" where
  "analyze_with_llm e email_details parsed_data w =
     (case select_body email_details of
        Inl exc \<Rightarrow> (Some (error_result exc), w)
      | Inr email_body \<Rightarrow>
          if \<not> truthy email_body then (Some no_content, w)
          else
            (case run_pipeline e email_details email_body w of
               (Raise exc, w1) \<Rightarrow> (Some (error_result exc), w1)
             | (Return a, w1) \<Rightarrow> (Some a, w1)
             | (Next u, w1) \<Rightarrow> (None, w1)))"

section \<open>The HTTP routes\<close>

text \<open>\<^verbatim>\<open>request.json\<close> raises when the body is not JSON, and gives the parsed value
  otherwise.\<close>

datatype request =
    BadRequest string
  | JsonBody jval

record received =
  rd_email_details :: jval
  rd_parsed_data :: jval
  rd_timestamp :: jval

record health_report =
  h_status :: string
  h_service :: string
  h_timestamp :: string
  google_sheets :: string
  groq_llm :: string

text \<open>The JSON bodies of the responses: \<^verbatim>\<open>{"status", "received_data", "llm_analysis"}\<close>
  of \<^verbatim>\<open>/process\<close>, \<^verbatim>\<open>{"error": str(e)}\<close>, and the report of \<^verbatim>\<open>/health\<close>.\<close>

datatype http_body =
    ProcessBody string received "analysis option"
  | ErrorBody pyexc
  | HealthBody health_report

record http_response =
  status_code :: nat
  body :: http_body

definition request_json :: "request \<Rightarrow> pyexc + jval" where
  "request_json req =
     (case req of BadRequest m \<Rightarrow> Inl (LibraryError m) | JsonBody data \<Rightarrow> Inr data)"

text \<open>Lines 280 to 290 of \<^verbatim>\<open>process\<close>: the reads of the payload, each of which raises on a
  value that is not a dict.\<close>

definition read_payload :: "request \<Rightarrow> pyexc + received" where
  "read_payload req =
     (case request_json req of
        Inl exc \<Rightarrow> Inl exc
      | Inr data \<Rightarrow>
     (case dict_get data ''email_details'' (JObj []) of
        Inl exc \<Rightarrow> Inl exc
      | Inr email_details \<Rightarrow>
     (case dict_get data ''parsed_data'' (JObj []) of
        Inl exc \<Rightarrow> Inl exc
      | Inr parsed_data \<Rightarrow>
     (case dict_get data ''timestamp'' (JStr []) of
        Inl exc \<Rightarrow> Inl exc
      | Inr timestamp \<Rightarrow>
     (case dict_get email_details ''from'' (JStr ''N/A'') of
        Inl exc \<Rightarrow> Inl exc
      | Inr email_from \<Rightarrow>
     (case dict_get email_details ''subject'' (JStr ''N/A'') of
        Inl exc \<Rightarrow> Inl exc
      | Inr email_subject \<Rightarrow>
     (case dict_get parsed_data ''emailType'' (JStr ''unknown'') of
        Inl exc \<Rightarrow> Inl exc
      | Inr email_kind \<Rightarrow>
          Inr \<lparr>rd_email_details = email_details, rd_parsed_data = parsed_data,
               rd_timestamp = timestamp\<rparr>)))))))"

definition process :: "env \<Rightarrow> request \<Rightarrow> world \<Rightarrow> http_response \<times> world" where
  "process e req w =
     (case read_payload req of
        Inl exc \<Rightarrow> (\<lparr>status_code = 500, body = ErrorBody exc\<rparr>, w)
      | Inr rd \<Rightarrow>
          (case analyze_with_llm e (rd_email_details rd) (rd_parsed_data rd) w of
             (llm_analysis, w1) \<Rightarrow>
               (\<lparr>status_code = 200, body = ProcessBody ''success'' rd llm_analysis\<rparr>, w1)))"

definition test_row :: "string \<Rightarrow> string list" where
  "test_row current_time = [current_time, ''TEST_POKEMON'', ''0'']"

definition test_google_sheets_connection :: "env \<Rightarrow> world \<Rightarrow> bool \<times> world" where
  "test_google_sheets_connection e w =
     (case initialize_google_sheets e w of
        ((client, worksheet), w1) \<Rightarrow>
          (case worksheet of
             Some ws \<Rightarrow>
               (case now e w1 of
                  (t, w2) \<Rightarrow>
                    (case append_row e ws (test_row (strftime t)) w2 of
                       (Inr u, w3) \<Rightarrow> (True, w3)
                     | (Inl exc, w3) \<Rightarrow> (False, w3)))
           | None \<Rightarrow> (False, w1)))"

definition health :: "env \<Rightarrow> world \<Rightarrow> http_response \<times> world" where
  "health e w =
     (case test_google_sheets_connection e w of
        (sheets_status, w1) \<Rightarrow>
          (case now e w1 of
             (t, w2) \<Rightarrow>
               (\<lparr>status_code = 200,
                 body = HealthBody
                   \<lparr>h_status = ''healthy'', h_service = ''email-llm-processor'',
                    h_timestamp = isoformat t,
                    google_sheets = (if sheets_status then ''connected'' else ''disconnected''),
                    groq_llm = ''available''\<rparr>\<rparr>, w2)))"

text \<open>The shape of a result: its kind, with the confidence of that kind, an error text for
  every kind but the sale, and the extracted data where the kind carries them.\<close>

definition structured_result :: "analysis \<Rightarrow> bool" where
  "structured_result a =
     (if email_type a = ''pokemon_sale''
      then confidence a = 0.95 \<and> error a = None \<and> extracted_data a \<noteq> None
      else if email_type a = ''sheets_error'' \<or> email_type a = ''append_error''
      then confidence a = 0.8 \<and> error a \<noteq> None \<and> extracted_data a \<noteq> None
      else (email_type a = ''no_content'' \<or> email_type a = ''llm_error'' \<or>
            email_type a = ''error'') \<and>
           confidence a = 0 \<and> error a \<noteq> None \<and> extracted_data a = None)"

text \<open>The payloads that \<^verbatim>\<open>process\<close> can read: a JSON object whose \<^verbatim>\<open>email_details\<close> and
  \<^verbatim>\<open>parsed_data\<close>, when present, are objects.\<close>

definition is_dict :: "jval \<Rightarrow> bool" where
  "is_dict v = (type_of v = DictT)"

definition well_formed_request :: "request \<Rightarrow> bool" where
  "well_formed_request req =
     (case req of
        BadRequest m \<Rightarrow> False
      | JsonBody data \<Rightarrow>
          (case data of
             JObj kvs \<Rightarrow>
               (case map_of kvs ''email_details'' of None \<Rightarrow> True | Some v \<Rightarrow> is_dict v) \<and>
               (case map_of kvs ''parsed_data'' of None \<Rightarrow> True | Some v \<Rightarrow> is_dict v)
           | _ \<Rightarrow> False))"

text \<open>A list of attempts that ends with the last attempt of the loops.\<close>

definition complete :: "nat list \<Rightarrow> bool" where
  "complete as = (as \<noteq> [] \<and> last as = max_retries - 1)"

section \<open>Sample data\<close>

text \<open>The payload of the \<^verbatim>\<open>/test\<close> route, shortened, a clock, and environments in which
  every call of a kind gets the same answer.\<close>

definition sale_text :: string where
  "sale_text = ''Sale Price: $150.00, Total Payout: $135.00, item: Charizard VMAX''"

definition sale_details :: jval where
  "sale_details =
     JObj [(''from'', JStr ''cs@email.fanaticscollect.com''),
           (''subject'', JStr ''Your Buy Now Sale is Complete!''),
           (''body'', JObj [(''textBody'', JStr sale_text),
                            (''htmlBody'', JStr ''<strong>Pokemon Charizard VMAX</strong>'')])]"

definition sale_parsed :: jval where
  "sale_parsed = JObj [(''emailType'', JStr ''fanatics_sale'')]"

definition charizard :: response where
  "charizard = Dict [(''pokemon_name'', PyStr ''Charizard VMAX''), (''payout'', PyStr ''135.00'')]"

definition morning :: datetime where
  "morning =
     \<lparr>year = 2024, month = 1, day = 15, hour = 10, minute = 30, second = 0, microsecond = 0\<rparr>"

definition sample_env :: "llm_reply \<Rightarrow> connect_outcome \<Rightarrow> append_outcome \<Rightarrow> env" where
  "sample_env rep c a =
     \<lparr>llm_at = (\<lambda>k x. rep), connect_at = (\<lambda>k. c), append_at = (\<lambda>k r. a),
      clock_at = (\<lambda>k. morning)\<rparr>"

definition sale_request :: request where
  "sale_request =
     JsonBody (JObj [(''email_details'', sale_details), (''parsed_data'', sale_parsed),
                     (''timestamp'', JStr ''2024-01-15T10:30:00Z'')])"

definition blank_answer :: response where
  "blank_answer = Dict [(''pokemon_name'', PyStr []), (''payout'', PyStr ''N/A'')]"

definition padded_answer :: response where
  "padded_answer = Dict [(''pokemon_name'', PyStr '' ''), (''payout'', PyStr '' N/A '')]"

definition world0 :: world where
  "world0 = \<lparr>sheet = [], trace = []\<rparr>"

section \<open>The retry loops\<close>

lemma range_max_retries: "[0..<max_retries] = [0, 1, 2]"
  by (simp add: max_retries_def upt_rec)

lemma calls_record_call [simp]:
  "calls P (record_call ev w) = (if P ev then Suc (calls P w) else calls P w)"
  by (simp add: calls_def record_call_def)

lemma sheet_record_call [simp]: "sheet (record_call ev w) = sheet w"
  by (simp add: record_call_def)

lemma trace_record_call [simp]: "trace (record_call ev w) = trace w @ [ev]"
  by (simp add: record_call_def)

lemma calls_events [simp]:
  "calls P (w\<lparr>trace := trace w @ evs\<rparr>) = calls P w + length (filter P evs)"
  by (simp add: calls_def)

lemma llm_loop_ok_step:
  assumes "attempt_outcome (llm_at e (calls is_Invoke w) b) = Inr r"
  shows "llm_loop e b (a # rest) er w = (Next (Some r), record_call (Invoke b) w)"
  using assms
  by (simp add: attempt_outcome_def invoke_def split: llm_reply.splits sum.splits)

lemma llm_loop_fail_step:
  assumes "attempt_outcome (llm_at e (calls is_Invoke w) b) = Inl x"
  shows "\<exists>er'. llm_loop e b (a # rest) er w =
           (if a = max_retries - 1 then (Return (llm_error x), record_call (Invoke b) w)
            else llm_loop e b rest er' (record_call (Invoke b) w))"
proof (cases "llm_at e (calls is_Invoke w) b")
  case (Raises m)
  with assms have "llm_loop e b (a # rest) er w =
           (if a = max_retries - 1 then (Return (llm_error x), record_call (Invoke b) w)
            else llm_loop e b rest er (record_call (Invoke b) w))"
    by (simp add: attempt_outcome_def invoke_def)
  then show ?thesis ..
next
  case (Returns r)
  with assms have "llm_loop e b (a # rest) er w =
           (if a = max_retries - 1 then (Return (llm_error x), record_call (Invoke b) w)
            else llm_loop e b rest (Some r) (record_call (Invoke b) w))"
    by (simp add: attempt_outcome_def invoke_def split: sum.splits)
  then show ?thesis ..
qed

lemma llm_loop_succeeds:
  assumes "\<forall>i<j. \<exists>x. attempt_outcome (llm_at e (calls is_Invoke w + i) b) = Inl x"
    and "attempt_outcome (llm_at e (calls is_Invoke w + j) b) = Inr r"
    and "j < length as" and "\<forall>i<j. as ! i \<noteq> max_retries - 1"
  shows "llm_loop e b as er w =
           (Next (Some r), w\<lparr>trace := trace w @ replicate (Suc j) (Invoke b)\<rparr>)"
  using assms
proof (induction j arbitrary: as er w)
  case 0
  then obtain a rest where as: "as = a # rest" by (cases as) auto
  from 0 have "attempt_outcome (llm_at e (calls is_Invoke w) b) = Inr r" by simp
  from llm_loop_ok_step [OF this, of a rest er] show ?case
    unfolding as by (simp add: record_call_def)
next
  case (Suc j)
  then obtain a rest where as: "as = a # rest" by (cases as) auto
  from Suc.prems(1) obtain x where x: "attempt_outcome (llm_at e (calls is_Invoke w) b) = Inl x"
    by force
  from Suc.prems(4) have a: "a \<noteq> max_retries - 1" unfolding as by force
  from llm_loop_fail_step [OF x, of a rest er] a obtain er' where
    step: "llm_loop e b (a # rest) er w = llm_loop e b rest er' (record_call (Invoke b) w)"
    by auto
  let ?w = "record_call (Invoke b) w"
  have 1: "\<forall>i<j. \<exists>x. attempt_outcome (llm_at e (calls is_Invoke ?w + i) b) = Inl x"
  proof (intro allI impI)
    fix i assume "i < j"
    then have "Suc i < Suc j" by simp
    with Suc.prems(1) show "\<exists>x. attempt_outcome (llm_at e (calls is_Invoke ?w + i) b) = Inl x"
      by fastforce
  qed
  have 2: "attempt_outcome (llm_at e (calls is_Invoke ?w + j) b) = Inr r"
    using Suc.prems(2) by simp
  have 3: "j < length rest" using Suc.prems(3) as by simp
  have 4: "\<forall>i<j. rest ! i \<noteq> max_retries - 1"
  proof (intro allI impI)
    fix i assume "i < j"
    then have "Suc i < Suc j" by simp
    with Suc.prems(4) have "as ! Suc i \<noteq> max_retries - 1" by blast
    then show "rest ! i \<noteq> max_retries - 1" unfolding as by simp
  qed
  have "llm_loop e b rest er' ?w =
          (Next (Some r), ?w\<lparr>trace := trace ?w @ replicate (Suc j) (Invoke b)\<rparr>)"
    by (rule Suc.IH [OF 1 2 3 4])
  then show ?case
    unfolding as step by (simp add: record_call_def)
qed

lemma llm_loop_exhausts:
  assumes "\<forall>i<j. \<exists>x. attempt_outcome (llm_at e (calls is_Invoke w + i) b) = Inl x"
    and "attempt_outcome (llm_at e (calls is_Invoke w + j) b) = Inl x"
    and "j < length as" and "\<forall>i<j. as ! i \<noteq> max_retries - 1"
    and "as ! j = max_retries - 1"
  shows "llm_loop e b as er w =
           (Return (llm_error x), w\<lparr>trace := trace w @ replicate (Suc j) (Invoke b)\<rparr>)"
  using assms
proof (induction j arbitrary: as er w)
  case 0
  then obtain a rest where as: "as = a # rest" by (cases as) auto
  from 0 have a: "a = max_retries - 1" unfolding as by simp
  from 0 have "attempt_outcome (llm_at e (calls is_Invoke w) b) = Inl x" by simp
  from llm_loop_fail_step [OF this, of a rest er] a
  show ?case unfolding as by (simp add: record_call_def)
next
  case (Suc j)
  then obtain a rest where as: "as = a # rest" by (cases as) auto
  from Suc.prems(1) obtain y where y: "attempt_outcome (llm_at e (calls is_Invoke w) b) = Inl y"
    by force
  from Suc.prems(4) have a: "a \<noteq> max_retries - 1" unfolding as by force
  from llm_loop_fail_step [OF y, of a rest er] a obtain er' where
    step: "llm_loop e b (a # rest) er w = llm_loop e b rest er' (record_call (Invoke b) w)"
    by auto
  let ?w = "record_call (Invoke b) w"
  have 1: "\<forall>i<j. \<exists>x. attempt_outcome (llm_at e (calls is_Invoke ?w + i) b) = Inl x"
  proof (intro allI impI)
    fix i assume "i < j"
    then have "Suc i < Suc j" by simp
    with Suc.prems(1) show "\<exists>x. attempt_outcome (llm_at e (calls is_Invoke ?w + i) b) = Inl x"
      by fastforce
  qed
  have 2: "attempt_outcome (llm_at e (calls is_Invoke ?w + j) b) = Inl x"
    using Suc.prems(2) by simp
  have 3: "j < length rest" using Suc.prems(3) as by simp
  have 4: "\<forall>i<j. rest ! i \<noteq> max_retries - 1"
  proof (intro allI impI)
    fix i assume "i < j"
    then have "Suc i < Suc j" by simp
    with Suc.prems(4) have "as ! Suc i \<noteq> max_retries - 1" by blast
    then show "rest ! i \<noteq> max_retries - 1" unfolding as by simp
  qed
  have 5: "rest ! j = max_retries - 1" using Suc.prems(5) as by simp
  have "llm_loop e b rest er' ?w =
          (Return (llm_error x), ?w\<lparr>trace := trace ?w @ replicate (Suc j) (Invoke b)\<rparr>)"
    by (rule Suc.IH [OF 1 2 3 4 5])
  then show ?case
    unfolding as step by (simp add: record_call_def)
qed


lemma sheets_loop_ok_step:
  assumes "connect_at e (calls is_Connect w) = Opened"
  shows "sheets_loop e resp (a # rest) cw w =
           (Next (Some Client, Some Worksheet), record_call Connect w)"
  using assms by (simp add: initialize_google_sheets_def)

lemma sheets_loop_fail_step:
  assumes "connect_at e (calls is_Connect w) \<noteq> Opened"
  shows "sheets_loop e resp (a # rest) cw w =
           (if a = max_retries - 1 then
              (case raw_data resp of
                 Inl exc \<Rightarrow> (Raise exc, record_call Connect w)
               | Inr d \<Rightarrow> (Return (sheets_error d connect_message), record_call Connect w))
            else sheets_loop e resp rest (None, None) (record_call Connect w))"
  using assms
  by (cases "connect_at e (calls is_Connect w)")
     (simp_all add: initialize_google_sheets_def split: sum.splits)

lemma sheets_loop_succeeds:
  assumes "\<forall>i<j. connect_at e (calls is_Connect w + i) \<noteq> Opened"
    and "connect_at e (calls is_Connect w + j) = Opened"
    and "j < length as" and "\<forall>i<j. as ! i \<noteq> max_retries - 1"
  shows "sheets_loop e resp as cw w =
           (Next (Some Client, Some Worksheet),
            w\<lparr>trace := trace w @ replicate (Suc j) Connect\<rparr>)"
  using assms
proof (induction j arbitrary: as cw w)
  case 0
  then obtain a rest where as: "as = a # rest" by (cases as) auto
  from 0 have "connect_at e (calls is_Connect w) = Opened" by simp
  from sheets_loop_ok_step [OF this, of resp a rest cw] show ?case
    unfolding as by (simp add: record_call_def)
next
  case (Suc j)
  then obtain a rest where as: "as = a # rest" by (cases as) auto
  from Suc.prems(1) have x: "connect_at e (calls is_Connect w) \<noteq> Opened" by force
  from Suc.prems(4) have a: "a \<noteq> max_retries - 1" unfolding as by force
  let ?w = "record_call Connect w"
  from sheets_loop_fail_step [OF x, of resp a rest cw] a have
    step: "sheets_loop e resp (a # rest) cw w = sheets_loop e resp rest (None, None) ?w"
    by simp
  have 1: "\<forall>i<j. connect_at e (calls is_Connect ?w + i) \<noteq> Opened"
  proof (intro allI impI)
    fix i assume "i < j"
    then have "Suc i < Suc j" by simp
    with Suc.prems(1) have "connect_at e (calls is_Connect w + Suc i) \<noteq> Opened" by blast
    then show "connect_at e (calls is_Connect ?w + i) \<noteq> Opened" by simp
  qed
  have 2: "connect_at e (calls is_Connect ?w + j) = Opened"
    using Suc.prems(2) by simp
  have 3: "j < length rest" using Suc.prems(3) as by simp
  have 4: "\<forall>i<j. rest ! i \<noteq> max_retries - 1"
  proof (intro allI impI)
    fix i assume "i < j"
    then have "Suc i < Suc j" by simp
    with Suc.prems(4) have "as ! Suc i \<noteq> max_retries - 1" by blast
    then show "rest ! i \<noteq> max_retries - 1" unfolding as by simp
  qed
  have "sheets_loop e resp rest (None, None) ?w =
          (Next (Some Client, Some Worksheet),
           ?w\<lparr>trace := trace ?w @ replicate (Suc j) Connect\<rparr>)"
    by (rule Suc.IH [OF 1 2 3 4])
  then show ?case
    unfolding as step by (simp add: record_call_def)
qed

lemma sheets_loop_exhausts:
  assumes "\<forall>i\<le>j. connect_at e (calls is_Connect w + i) \<noteq> Opened"
    and "raw_data resp = Inr d"
    and "j < length as" and "\<forall>i<j. as ! i \<noteq> max_retries - 1"
    and "as ! j = max_retries - 1"
  shows "sheets_loop e resp as cw w =
           (Return (sheets_error d connect_message),
            w\<lparr>trace := trace w @ replicate (Suc j) Connect\<rparr>)"
  using assms
proof (induction j arbitrary: as cw w)
  case 0
  then obtain a rest where as: "as = a # rest" by (cases as) auto
  from 0 have a: "a = max_retries - 1" unfolding as by simp
  from 0 have "connect_at e (calls is_Connect w) \<noteq> Opened" by simp
  from sheets_loop_fail_step [OF this, of resp a rest cw] a 0(2)
  show ?case unfolding as by (simp add: record_call_def)
next
  case (Suc j)
  then obtain a rest where as: "as = a # rest" by (cases as) auto
  from Suc.prems(1) have x: "connect_at e (calls is_Connect w) \<noteq> Opened" by force
  from Suc.prems(4) have a: "a \<noteq> max_retries - 1" unfolding as by force
  let ?w = "record_call Connect w"
  from sheets_loop_fail_step [OF x, of resp a rest cw] a have
    step: "sheets_loop e resp (a # rest) cw w = sheets_loop e resp rest (None, None) ?w"
    by simp
  have 1: "\<forall>i\<le>j. connect_at e (calls is_Connect ?w + i) \<noteq> Opened"
  proof (intro allI impI)
    fix i assume "i \<le> j"
    then have "Suc i \<le> Suc j" by simp
    with Suc.prems(1) have "connect_at e (calls is_Connect w + Suc i) \<noteq> Opened" by blast
    then show "connect_at e (calls is_Connect ?w + i) \<noteq> Opened" by simp
  qed
  have 3: "j < length rest" using Suc.prems(3) as by simp
  have 4: "\<forall>i<j. rest ! i \<noteq> max_retries - 1"
  proof (intro allI impI)
    fix i assume "i < j"
    then have "Suc i < Suc j" by simp
    with Suc.prems(4) have "as ! Suc i \<noteq> max_retries - 1" by blast
    then show "rest ! i \<noteq> max_retries - 1" unfolding as by simp
  qed
  have 5: "rest ! j = max_retries - 1" using Suc.prems(5) as by simp
  have "sheets_loop e resp rest (None, None) ?w =
          (Return (sheets_error d connect_message),
           ?w\<lparr>trace := trace ?w @ replicate (Suc j) Connect\<rparr>)"
    by (rule Suc.IH [OF 1 Suc.prems(2) 3 4 5])
  then show ?case
    unfolding as step by (simp add: record_call_def)
qed


lemma append_loop_ok_step:
  assumes "append_at e (calls is_Append w) row = Appended"
  shows "append_loop e ws row n p (a # rest) w =
           (Next (), w\<lparr>trace := trace w @ [Append row], sheet := sheet w @ [row]\<rparr>)"
  using assms by (simp add: append_row_def record_call_def)

lemma append_loop_fail_step:
  assumes "append_at e (calls is_Append w) row = AppendRaises wr m"
  shows "append_loop e ws row n p (a # rest) w =
           (if a = max_retries - 1 then
              (Return (append_error (clean_data n p) (append_message (LibraryError m))),
               w\<lparr>trace := trace w @ [Append row],
                 sheet := sheet w @ (if wr then [row] else [])\<rparr>)
            else append_loop e ws row n p rest
               (w\<lparr>trace := trace w @ [Append row],
                  sheet := sheet w @ (if wr then [row] else [])\<rparr>))"
  using assms
  by (simp add: append_row_def record_call_def)

lemma append_loop_succeeds:
  assumes "\<forall>i<j. \<exists>wr m. append_at e (calls is_Append w + i) row = AppendRaises wr m"
    and "append_at e (calls is_Append w + j) row = Appended"
    and "j < length as" and "\<forall>i<j. as ! i \<noteq> max_retries - 1"
  shows "\<exists>k\<le>j. append_loop e ws row n p as w =
           (Next (), w\<lparr>trace := trace w @ replicate (Suc j) (Append row),
                        sheet := sheet w @ replicate (Suc k) row\<rparr>)"
  using assms
proof (induction j arbitrary: as w)
  case 0
  then obtain a rest where as: "as = a # rest" by (cases as) auto
  from 0 have "append_at e (calls is_Append w) row = Appended" by simp
  from append_loop_ok_step [OF this, of ws n p a rest] show ?case
    unfolding as by simp
next
  case (Suc j)
  then obtain a rest where as: "as = a # rest" by (cases as) auto
  from Suc.prems(1) have
    "0 < Suc j \<longrightarrow> (\<exists>wr m. append_at e (calls is_Append w + 0) row = AppendRaises wr m)"
    by (rule spec)
  then obtain wr m where
    x: "append_at e (calls is_Append w) row = AppendRaises wr m" by auto
  from Suc.prems(4) have a: "a \<noteq> max_retries - 1" unfolding as by force
  let ?w = "w\<lparr>trace := trace w @ [Append row],
               sheet := sheet w @ (if wr then [row] else [])\<rparr>"
  from append_loop_fail_step [OF x, of ws n p a rest] a have
    step: "append_loop e ws row n p (a # rest) w = append_loop e ws row n p rest ?w"
    by simp
  have c: "calls is_Append ?w = Suc (calls is_Append w)" by (simp add: calls_def)
  have 1: "\<forall>i<j. \<exists>wr m. append_at e (calls is_Append ?w + i) row = AppendRaises wr m"
  proof (intro allI impI)
    fix i assume "i < j"
    then have "Suc i < Suc j" by simp
    with Suc.prems(1) have "\<exists>wr m. append_at e (calls is_Append w + Suc i) row = AppendRaises wr m"
      by blast
    then show "\<exists>wr m. append_at e (calls is_Append ?w + i) row = AppendRaises wr m"
      unfolding c by simp
  qed
  have 2: "append_at e (calls is_Append ?w + j) row = Appended"
    using Suc.prems(2) unfolding c by simp
  have 3: "j < length rest" using Suc.prems(3) as by simp
  have 4: "\<forall>i<j. rest ! i \<noteq> max_retries - 1"
  proof (intro allI impI)
    fix i assume "i < j"
    then have "Suc i < Suc j" by simp
    with Suc.prems(4) have "as ! Suc i \<noteq> max_retries - 1" by blast
    then show "rest ! i \<noteq> max_retries - 1" unfolding as by simp
  qed
  from Suc.IH [OF 1 2 3 4] obtain k where k: "k \<le> j"
    and run: "append_loop e ws row n p rest ?w =
          (Next (), ?w\<lparr>trace := trace ?w @ replicate (Suc j) (Append row),
                        sheet := sheet ?w @ replicate (Suc k) row\<rparr>)"
    by blast
  show ?case
  proof (cases wr)
    case True
    with run have "append_loop e ws row n p as w =
           (Next (), w\<lparr>trace := trace w @ replicate (Suc (Suc j)) (Append row),
                        sheet := sheet w @ replicate (Suc (Suc k)) row\<rparr>)"
      unfolding as step by simp
    moreover have "Suc k \<le> Suc j" using k by simp
    ultimately show ?thesis by blast
  next
    case False
    with run have "append_loop e ws row n p as w =
           (Next (), w\<lparr>trace := trace w @ replicate (Suc (Suc j)) (Append row),
                        sheet := sheet w @ replicate (Suc k) row\<rparr>)"
      unfolding as step by simp
    moreover have "k \<le> Suc j" using k by simp
    ultimately show ?thesis by blast
  qed
qed

lemma append_loop_exhausts:
  assumes "\<forall>i<j. \<exists>wr m. append_at e (calls is_Append w + i) row = AppendRaises wr m"
    and "append_at e (calls is_Append w + j) row = AppendRaises wr0 m0"
    and "j < length as" and "\<forall>i<j. as ! i \<noteq> max_retries - 1"
    and "as ! j = max_retries - 1"
  shows "\<exists>k\<le>Suc j. append_loop e ws row n p as w =
           (Return (append_error (clean_data n p) (append_message (LibraryError m0))),
            w\<lparr>trace := trace w @ replicate (Suc j) (Append row),
              sheet := sheet w @ replicate k row\<rparr>)"
  using assms
proof (induction j arbitrary: as w)
  case 0
  then obtain a rest where as: "as = a # rest" by (cases as) auto
  from 0 have a: "a = max_retries - 1" unfolding as by simp
  from 0 have "append_at e (calls is_Append w) row = AppendRaises wr0 m0" by simp
  from append_loop_fail_step [OF this, of ws n p a rest] a
  have "append_loop e ws row n p as w =
           (Return (append_error (clean_data n p) (append_message (LibraryError m0))),
            w\<lparr>trace := trace w @ replicate (Suc 0) (Append row),
              sheet := sheet w @ replicate (if wr0 then 1 else 0) row\<rparr>)"
    unfolding as by simp
  moreover have "(if wr0 then 1 else 0) \<le> Suc (0::nat)" by simp
  ultimately show ?case by blast
next
  case (Suc j)
  then obtain a rest where as: "as = a # rest" by (cases as) auto
  from Suc.prems(1) have
    "0 < Suc j \<longrightarrow> (\<exists>wr m. append_at e (calls is_Append w + 0) row = AppendRaises wr m)"
    by (rule spec)
  then obtain wr m where
    x: "append_at e (calls is_Append w) row = AppendRaises wr m" by auto
  from Suc.prems(4) have a: "a \<noteq> max_retries - 1" unfolding as by force
  let ?w = "w\<lparr>trace := trace w @ [Append row],
               sheet := sheet w @ (if wr then [row] else [])\<rparr>"
  from append_loop_fail_step [OF x, of ws n p a rest] a have
    step: "append_loop e ws row n p (a # rest) w = append_loop e ws row n p rest ?w"
    by simp
  have c: "calls is_Append ?w = Suc (calls is_Append w)" by (simp add: calls_def)
  have 1: "\<forall>i<j. \<exists>wr m. append_at e (calls is_Append ?w + i) row = AppendRaises wr m"
  proof (intro allI impI)
    fix i assume "i < j"
    then have "Suc i < Suc j" by simp
    with Suc.prems(1) have "\<exists>wr m. append_at e (calls is_Append w + Suc i) row = AppendRaises wr m"
      by blast
    then show "\<exists>wr m. append_at e (calls is_Append ?w + i) row = AppendRaises wr m"
      unfolding c by simp
  qed
  have 2: "append_at e (calls is_Append ?w + j) row = AppendRaises wr0 m0"
    using Suc.prems(2) unfolding c by simp
  have 3: "j < length rest" using Suc.prems(3) as by simp
  have 4: "\<forall>i<j. rest ! i \<noteq> max_retries - 1"
  proof (intro allI impI)
    fix i assume "i < j"
    then have "Suc i < Suc j" by simp
    with Suc.prems(4) have "as ! Suc i \<noteq> max_retries - 1" by blast
    then show "rest ! i \<noteq> max_retries - 1" unfolding as by simp
  qed
  have 5: "rest ! j = max_retries - 1" using Suc.prems(5) as by simp
  from Suc.IH [OF 1 2 3 4 5] obtain k where k: "k \<le> Suc j"
    and run: "append_loop e ws row n p rest ?w =
          (Return (append_error (clean_data n p) (append_message (LibraryError m0))),
           ?w\<lparr>trace := trace ?w @ replicate (Suc j) (Append row),
              sheet := sheet ?w @ replicate k row\<rparr>)"
    by blast
  show ?case
  proof (cases wr)
    case True
    with run have "append_loop e ws row n p as w =
           (Return (append_error (clean_data n p) (append_message (LibraryError m0))),
            w\<lparr>trace := trace w @ replicate (Suc (Suc j)) (Append row),
              sheet := sheet w @ replicate (Suc k) row\<rparr>)"
      unfolding as step by simp
    moreover have "Suc k \<le> Suc (Suc j)" using k by simp
    ultimately show ?thesis by blast
  next
    case False
    with run have "append_loop e ws row n p as w =
           (Return (append_error (clean_data n p) (append_message (LibraryError m0))),
            w\<lparr>trace := trace w @ replicate (Suc (Suc j)) (Append row),
              sheet := sheet w @ replicate k row\<rparr>)"
      unfolding as step by simp
    moreover have "k \<le> Suc (Suc j)" using k by simp
    ultimately show ?thesis by blast
  qed
qed

section \<open>Facts about the stages\<close>

declare decimal.simps [simp del]

lemma digit_mod [simp]: "digit (n mod 10) = digit n"
  by (simp add: digit_def)

lemma decimal_1: "n < 10 \<Longrightarrow> decimal n = [digit n]"
  by (subst decimal.simps) simp

lemma decimal_2: "10 \<le> n \<Longrightarrow> n < 100 \<Longrightarrow> decimal n = [digit (n div 10), digit n]"
  by (subst decimal.simps) (simp add: decimal_1)

lemma decimal_3:
  "100 \<le> n \<Longrightarrow> n < 1000 \<Longrightarrow> decimal n = [digit (n div 100), digit (n div 10), digit n]"
  by (subst decimal.simps) (simp add: decimal_2 div_mult2_eq [symmetric])

lemma decimal_4:
  "1000 \<le> n \<Longrightarrow> n < 10000 \<Longrightarrow>
   decimal n = [digit (n div 1000), digit (n div 100), digit (n div 10), digit n]"
  by (subst decimal.simps) (simp add: decimal_3 div_mult2_eq [symmetric])

lemma digit_0: "digit 0 = CHR ''0''"
  by (simp add: digit_def)

lemma zero_pad_2: "n < 100 \<Longrightarrow> zero_pad 2 n = [digit (n div 10), digit n]"
  by (cases "n < 10") (simp_all add: zero_pad_def decimal_1 decimal_2 digit_0)

lemma zero_pad_4:
  "1000 \<le> n \<Longrightarrow> n < 10000 \<Longrightarrow>
   zero_pad 4 n = [digit (n div 1000), digit (n div 100), digit (n div 10), digit n]"
  by (simp add: zero_pad_def decimal_4)

lemma digit_is_digit: "is_digit (digit n)"
  unfolding is_digit_def digit_def by (rule nth_mem) simp

lemma strftime_format: "valid_datetime d \<Longrightarrow> timestamp_format (strftime d)"
  by (simp add: strftime_def valid_datetime_def zero_pad_2 zero_pad_4 digit_is_digit)

lemma attempts_length: "length [0..<max_retries] = max_retries"
  by simp

lemma attempts_not_last: "j < max_retries \<Longrightarrow> \<forall>i<j. [0..<max_retries] ! i \<noteq> max_retries - 1"
  by auto

lemma attempts_last: "[0..<max_retries] ! (max_retries - 1) = max_retries - 1"
  by (simp add: max_retries_def)

lemma valid_response_fields:
  assumes "validate_response r = Inr u"
  shows "\<exists>kvs n p. r = Dict kvs \<and> map_of kvs ''pokemon_name'' = Some n \<and>
           map_of kvs ''payout'' = Some p \<and> field_truthy n \<and> field_truthy p"
proof (cases r)
  case (Dict kvs)
  with assms show ?thesis
    by (auto simp: validate_response_def response_truthy_def response_get_def
             split: if_splits option.splits)
next
  case (NotDict ty b)
  with assms show ?thesis
    by (simp add: validate_response_def response_truthy_def response_get_def split: if_splits)
qed

lemma attempt_outcome_valid:
  "attempt_outcome rep = Inr r \<Longrightarrow> validate_response r = Inr ()"
  by (cases rep) (auto simp: attempt_outcome_def split: sum.splits)

lemma raw_data_dict:
  "map_of kvs ''pokemon_name'' = Some n \<Longrightarrow> map_of kvs ''payout'' = Some p \<Longrightarrow>
   raw_data (Some (Dict kvs)) = Inr \<lparr>ex_pokemon_name = n, ex_payout = p, ex_timestamp = None\<rparr>"
  by (simp add: raw_data_def response_item_def)

lemma select_body_dict: "select_body d = Inr b \<Longrightarrow> \<exists>kvs. d = JObj kvs"
  by (cases d) (simp_all add: select_body_def dict_get_def)

lemma missing_field_fails:
  "map_of kvs ''pokemon_name'' = None \<or> map_of kvs ''payout'' = None \<Longrightarrow>
   \<exists>x. attempt_outcome (Returns (Dict kvs)) = Inl x"
  by (auto simp: attempt_outcome_def validate_response_def response_truthy_def response_get_def)

lemma calls_invokes [simp]:
  "calls is_Connect (w\<lparr>trace := trace w @ replicate k (Invoke b)\<rparr>) = calls is_Connect w"
  "calls is_Append (w\<lparr>trace := trace w @ replicate k (Invoke b)\<rparr>) = calls is_Append w"
  "calls is_Now (w\<lparr>trace := trace w @ replicate k (Invoke b)\<rparr>) = calls is_Now w"
  by (simp_all add: calls_def)

lemma calls_connects [simp]:
  "calls is_Append (w\<lparr>trace := trace w @ replicate k Connect\<rparr>) = calls is_Append w"
  "calls is_Now (w\<lparr>trace := trace w @ replicate k Connect\<rparr>) = calls is_Now w"
  by (simp_all add: calls_def)

lemma append_block_run:
  assumes "map_of kvs ''pokemon_name'' = Some n" and "map_of kvs ''payout'' = Some p"
  shows "append_block e (JObj kvs0) (Some (Dict kvs)) ws w =
     (case append_loop e ws
             [strftime (clock_at e (calls is_Now w)), clean_name n, clean_payout p]
             (clean_name n) (clean_payout p) [0..<max_retries] (record_call Now w) of
        (Next u, w2) \<Rightarrow>
          (Return (pokemon_sale (clean_name n) (clean_payout p)
                     (strftime (clock_at e (calls is_Now w)))), w2)
      | (fl, w2) \<Rightarrow> (fl, w2))"
  using assms
  by (simp add: append_block_def now_def response_item_def dict_get_def Let_def)

lemma calls_now [simp]:
  "calls is_Append (record_call Now w) = calls is_Append w"
  by simp

lemma append_loop_no_raise: "append_loop e ws row n p as w \<noteq> (Raise x, w')"
proof (induction as arbitrary: w)
  case Nil
  show ?case by simp
next
  case (Cons a as)
  show ?case
  proof (cases "append_row e ws row w")
    case (Pair r w1)
    with Cons show ?thesis by (cases r) simp_all
  qed
qed

lemma connected_run:
  assumes body: "select_body email_details = Inr (JStr s)"
    and j: "j < max_retries"
    and fails: "\<forall>i<j. \<exists>x. attempt_outcome (llm_at e (calls is_Invoke w + i) (JStr s)) = Inl x"
    and ok: "attempt_outcome (llm_at e (calls is_Invoke w + j) (JStr s)) = Inr (Dict kvs)"
    and n: "map_of kvs ''pokemon_name'' = Some n" and p: "map_of kvs ''payout'' = Some p"
    and c: "c < max_retries"
    and cfails: "\<forall>i<c. connect_at e (calls is_Connect w + i) \<noteq> Opened"
    and cok: "connect_at e (calls is_Connect w + c) = Opened"
    and row: "row = [strftime (clock_at e (calls is_Now w)), clean_name n, clean_payout p]"
    and w3: "w3 = w\<lparr>trace := trace w @ replicate (Suc j) (Invoke (JStr s)) @
                      replicate (Suc c) Connect @ [Now]\<rparr>"
  shows "run_pipeline e email_details (JStr s) w =
     (case append_loop e Worksheet row (clean_name n) (clean_payout p) [0..<max_retries] w3 of
        (Next u, w4) \<Rightarrow>
          (Return (pokemon_sale (clean_name n) (clean_payout p)
                     (strftime (clock_at e (calls is_Now w)))), w4)
      | (fl, w4) \<Rightarrow> (fl, w4))"
proof -
  from select_body_dict [OF body] obtain kvs0 where d: "email_details = JObj kvs0" by blast
  define w1 where "w1 = w\<lparr>trace := trace w @ replicate (Suc j) (Invoke (JStr s))\<rparr>"
  define w2 where "w2 = w1\<lparr>trace := trace w1 @ replicate (Suc c) Connect\<rparr>"
  have loop1: "llm_loop e (JStr s) [0..<max_retries] None w = (Next (Some (Dict kvs)), w1)"
    unfolding w1_def
    by (rule llm_loop_succeeds [OF fails ok _ attempts_not_last [OF j]]) (simp add: j)
  have cfails1: "\<forall>i<c. connect_at e (calls is_Connect w1 + i) \<noteq> Opened"
    using cfails by (simp add: w1_def)
  have cok1: "connect_at e (calls is_Connect w1 + c) = Opened"
    using cok by (simp add: w1_def)
  have loop2: "sheets_loop e (Some (Dict kvs)) [0..<max_retries] (None, None) w1 =
      (Next (Some Client, Some Worksheet), w2)"
    unfolding w2_def
    by (rule sheets_loop_succeeds [OF cfails1 cok1 _ attempts_not_last [OF c]]) (simp add: c)
  have now: "calls is_Now w2 = calls is_Now w" by (simp add: w2_def w1_def)
  have w3': "record_call Now w2 = w3"
    unfolding w3 by (simp add: record_call_def w2_def w1_def)
  have block: "append_block e (JObj kvs0) (Some (Dict kvs)) Worksheet w2 =
     (case append_loop e Worksheet row (clean_name n) (clean_payout p) [0..<max_retries] w3 of
        (Next u, w4) \<Rightarrow>
          (Return (pokemon_sale (clean_name n) (clean_payout p)
                     (strftime (clock_at e (calls is_Now w)))), w4)
      | (fl, w4) \<Rightarrow> (fl, w4))"
    unfolding append_block_run [OF n p] now w3' row ..
  obtain fl w4 where al: "append_loop e Worksheet row (clean_name n) (clean_payout p)
      [0..<max_retries] w3 = (fl, w4)"
    by (cases "append_loop e Worksheet row (clean_name n) (clean_payout p) [0..<max_retries] w3")
  have no_raise: "\<And>x. fl \<noteq> Raise x"
    using append_loop_no_raise [of e Worksheet row "clean_name n" "clean_payout p"
        "[0..<max_retries]" w3 _ w4] al by auto
  have "run_pipeline e email_details (JStr s) w =
      append_stage e (JObj kvs0) (Some (Dict kvs)) (Some Worksheet) w2"
    by (simp add: run_pipeline_def slice200_def loop1 loop2 d)
  also have "\<dots> = (case (fl, w4) of
        (Next u, w4) \<Rightarrow>
          (Return (pokemon_sale (clean_name n) (clean_payout p)
                     (strftime (clock_at e (calls is_Now w)))), w4)
      | (fl, w4) \<Rightarrow> (fl, w4))"
  proof (cases fl)
    case (Raise x)
    with no_raise show ?thesis by blast
  qed (simp_all add: append_stage_def block al)
  finally show ?thesis unfolding al .
qed

lemma calls_before_append:
  "calls is_Append (w\<lparr>trace := trace w @ replicate j (Invoke b) @ replicate c Connect @ [Now]\<rparr>)
     = calls is_Append w"
  by (simp add: calls_def)


subsection \<open>The sample data\<close>

lemma sale_body: "select_body sale_details = Inr (JStr sale_text)"
  by (simp add: select_body_def dict_get_def sale_details_def sale_text_def)

lemma sale_text_nonempty: "sale_text \<noteq> []"
  by (simp add: sale_text_def)

lemma charizard_valid: "attempt_outcome (Returns charizard) = Inr charizard"
  by (simp add: attempt_outcome_def validate_response_def response_truthy_def response_get_def
      charizard_def)

lemma morning_valid: "valid_datetime morning"
  by (simp add: valid_datetime_def morning_def)

lemma morning_text: "strftime morning = ''2024-01-15 10:30:00''"
  by (simp add: strftime_def morning_def zero_pad_2 zero_pad_4 digit_def)

lemma charizard_clean:
  "clean_name (PyStr ''Charizard VMAX'') = ''Charizard VMAX''"
  "clean_payout (PyStr ''135.00'') = ''135.00''"
  by (simp_all add: clean_name_def clean_payout_def strip_def is_space_def)

section \<open>Every path of the pipeline\<close>

lemma complete_attempts: "complete [0..<max_retries]"
  by (simp add: complete_def max_retries_def upt_rec)

lemma complete_Cons: "a \<noteq> max_retries - 1 \<Longrightarrow> complete (a # rest) \<Longrightarrow> complete rest"
  by (cases rest) (simp_all add: complete_def)

lemma llm_loop_cases:
  assumes "llm_loop e b as er w = (fl, w')"
  shows "(\<exists>k. w' = w\<lparr>trace := trace w @ replicate k (Invoke b)\<rparr>) \<and>
         (case fl of
            Raise x \<Rightarrow> False
          | Return a \<Rightarrow> (\<exists>x. a = llm_error x)
          | Next er' \<Rightarrow> (\<exists>r. er' = Some r \<and> validate_response r = Inr ()) \<or> \<not> complete as)"
  using assms
proof (induction as arbitrary: er w)
  case Nil
  then have "fl = Next er" and w: "w' = w" by simp_all
  moreover have "\<exists>k. w' = w\<lparr>trace := trace w @ replicate k (Invoke b)\<rparr>"
    by (rule exI [of _ 0]) (simp add: w)
  ultimately show ?case by (simp add: complete_def)
next
  case (Cons a rest)
  let ?w = "record_call (Invoke b) w"
  have one: "\<exists>k. ?w = w\<lparr>trace := trace w @ replicate k (Invoke b)\<rparr>"
    by (rule exI [of _ 1]) (simp add: record_call_def)
  have more: "\<And>k. ?w\<lparr>trace := trace ?w @ replicate k (Invoke b)\<rparr> =
      w\<lparr>trace := trace w @ replicate (Suc k) (Invoke b)\<rparr>"
    by (simp add: record_call_def)
  show ?case
  proof (cases "attempt_outcome (llm_at e (calls is_Invoke w) b)")
    case (Inr r)
    from llm_loop_ok_step [OF Inr, of a rest er] Cons.prems
    have "fl = Next (Some r)" and "w' = ?w" by simp_all
    moreover have "validate_response r = Inr ()" by (rule attempt_outcome_valid [OF Inr])
    ultimately show ?thesis using one by simp
  next
    case (Inl x)
    from llm_loop_fail_step [OF Inl, of a rest er] obtain er' where
      step: "llm_loop e b (a # rest) er w =
           (if a = max_retries - 1 then (Return (llm_error x), ?w)
            else llm_loop e b rest er' ?w)" by blast
    show ?thesis
    proof (cases "a = max_retries - 1")
      case True
      with step Cons.prems have "fl = Return (llm_error x)" and "w' = ?w" by simp_all
      then show ?thesis using one by simp blast
    next
      case False
      with step Cons.prems have run: "llm_loop e b rest er' ?w = (fl, w')" by simp
      from Cons.IH [OF run] obtain k where
        k: "w' = ?w\<lparr>trace := trace ?w @ replicate k (Invoke b)\<rparr>"
        and fl: "(case fl of
            Raise x \<Rightarrow> False
          | Return a \<Rightarrow> (\<exists>x. a = llm_error x)
          | Next er' \<Rightarrow> (\<exists>r. er' = Some r \<and> validate_response r = Inr ()) \<or> \<not> complete rest)"
        by blast
      from k have "w' = w\<lparr>trace := trace w @ replicate (Suc k) (Invoke b)\<rparr>"
        unfolding more .
      then have "\<exists>k. w' = w\<lparr>trace := trace w @ replicate k (Invoke b)\<rparr>" ..
      moreover from fl complete_Cons [OF False, of rest] have "(case fl of
            Raise x \<Rightarrow> False
          | Return a \<Rightarrow> (\<exists>x. a = llm_error x)
          | Next er' \<Rightarrow> (\<exists>r. er' = Some r \<and> validate_response r = Inr ()) \<or>
              \<not> complete (a # rest))"
        by (cases fl) auto
      ultimately show ?thesis by blast
    qed
  qed
qed

lemma sheets_loop_cases:
  assumes "sheets_loop e resp as cw w = (fl, w')"
  shows "(\<exists>k. w' = w\<lparr>trace := trace w @ replicate k Connect\<rparr>) \<and>
         (case fl of
            Raise x \<Rightarrow> raw_data resp = Inl x
          | Return a \<Rightarrow> (\<exists>d. raw_data resp = Inr d \<and> a = sheets_error d connect_message)
          | Next cw' \<Rightarrow> snd cw' = Some Worksheet \<or> \<not> complete as)"
  using assms
proof (induction as arbitrary: cw w)
  case Nil
  then have "fl = Next cw" and w: "w' = w" by simp_all
  moreover have "\<exists>k. w' = w\<lparr>trace := trace w @ replicate k Connect\<rparr>"
    by (rule exI [of _ 0]) (simp add: w)
  ultimately show ?case by (simp add: complete_def)
next
  case (Cons a rest)
  let ?w = "record_call Connect w"
  have one: "\<exists>k. ?w = w\<lparr>trace := trace w @ replicate k Connect\<rparr>"
    by (rule exI [of _ 1]) (simp add: record_call_def)
  have more: "\<And>k. ?w\<lparr>trace := trace ?w @ replicate k Connect\<rparr> =
      w\<lparr>trace := trace w @ replicate (Suc k) Connect\<rparr>"
    by (simp add: record_call_def)
  show ?case
  proof (cases "connect_at e (calls is_Connect w) = Opened")
    case True
    from sheets_loop_ok_step [OF True, of resp a rest cw] Cons.prems
    have "fl = Next (Some Client, Some Worksheet)" and "w' = ?w" by simp_all
    then show ?thesis using one by simp
  next
    case False
    note step = sheets_loop_fail_step [OF False, of resp a rest cw]
    show ?thesis
    proof (cases "a = max_retries - 1")
      case True
      show ?thesis
      proof (cases "raw_data resp")
        case (Inl x)
        with step True Cons.prems have "fl = Raise x" and "w' = ?w" by simp_all
        then show ?thesis using one Inl by simp
      next
        case (Inr d)
        with step True Cons.prems have "fl = Return (sheets_error d connect_message)"
          and "w' = ?w" by simp_all
        then show ?thesis using one Inr by simp
      qed
    next
      case F: False
      with step Cons.prems have run: "sheets_loop e resp rest (None, None) ?w = (fl, w')"
        by simp
      from Cons.IH [OF run] obtain k where
        k: "w' = ?w\<lparr>trace := trace ?w @ replicate k Connect\<rparr>"
        and fl: "(case fl of
            Raise x \<Rightarrow> raw_data resp = Inl x
          | Return a \<Rightarrow> (\<exists>d. raw_data resp = Inr d \<and> a = sheets_error d connect_message)
          | Next cw' \<Rightarrow> snd cw' = Some Worksheet \<or> \<not> complete rest)"
        by blast
      from k have "w' = w\<lparr>trace := trace w @ replicate (Suc k) Connect\<rparr>"
        unfolding more .
      then have "\<exists>k. w' = w\<lparr>trace := trace w @ replicate k Connect\<rparr>" ..
      moreover from fl complete_Cons [OF F, of rest] have "(case fl of
            Raise x \<Rightarrow> raw_data resp = Inl x
          | Return a \<Rightarrow> (\<exists>d. raw_data resp = Inr d \<and> a = sheets_error d connect_message)
          | Next cw' \<Rightarrow> snd cw' = Some Worksheet \<or> \<not> complete (a # rest))"
        by (cases fl) auto
      ultimately show ?thesis by blast
    qed
  qed
qed

lemma append_loop_cases:
  assumes "append_loop e ws row n p as w = (fl, w')"
  shows "(\<exists>k m. w' = w\<lparr>trace := trace w @ replicate k (Append row),
                         sheet := sheet w @ replicate m row\<rparr>) \<and>
         (case fl of
            Raise x \<Rightarrow> False
          | Return a \<Rightarrow> (\<exists>x. a = append_error (clean_data n p) (append_message x))
          | Next u \<Rightarrow> True)"
  using assms
proof (induction as arbitrary: w)
  case Nil
  then have "fl = Next ()" and w: "w' = w" by simp_all
  moreover have "\<exists>k m. w' = w\<lparr>trace := trace w @ replicate k (Append row),
                               sheet := sheet w @ replicate m row\<rparr>"
    by (rule exI [of _ 0], rule exI [of _ 0]) (simp add: w)
  ultimately show ?case by simp
next
  case (Cons a rest)
  show ?case
  proof (cases "append_at e (calls is_Append w) row")
    case Appended
    from append_loop_ok_step [OF Appended, of ws n p a rest] Cons.prems
    have fl: "fl = Next ()" and w: "w' = w\<lparr>trace := trace w @ [Append row],
                                          sheet := sheet w @ [row]\<rparr>" by simp_all
    have "\<exists>k m. w' = w\<lparr>trace := trace w @ replicate k (Append row),
                         sheet := sheet w @ replicate m row\<rparr>"
      by (rule exI [of _ 1], rule exI [of _ 1]) (simp add: w)
    then show ?thesis using fl by simp
  next
    case (AppendRaises wr m)
    let ?w = "w\<lparr>trace := trace w @ [Append row],
               sheet := sheet w @ (if wr then [row] else [])\<rparr>"
    have one: "\<exists>k m. ?w = w\<lparr>trace := trace w @ replicate k (Append row),
                      sheet := sheet w @ replicate m row\<rparr>"
      by (rule exI [of _ 1], rule exI [of _ "if wr then 1 else 0"]) simp
    have more: "\<And>k m. ?w\<lparr>trace := trace ?w @ replicate k (Append row),
                           sheet := sheet ?w @ replicate m row\<rparr> =
        w\<lparr>trace := trace w @ replicate (Suc k) (Append row),
          sheet := sheet w @ replicate ((if wr then 1 else 0) + m) row\<rparr>"
      by (simp add: replicate_add)
    note step = append_loop_fail_step [OF AppendRaises, of ws n p a rest]
    show ?thesis
    proof (cases "a = max_retries - 1")
      case True
      with step Cons.prems
      have "fl = Return (append_error (clean_data n p) (append_message (LibraryError m)))"
        and "w' = ?w" by simp_all
      then show ?thesis using one by simp blast
    next
      case False
      with step Cons.prems have run: "append_loop e ws row n p rest ?w = (fl, w')" by simp
      from Cons.IH [OF run] obtain k m' where
        k: "w' = ?w\<lparr>trace := trace ?w @ replicate k (Append row),
                      sheet := sheet ?w @ replicate m' row\<rparr>"
        and fl: "(case fl of
            Raise x \<Rightarrow> False
          | Return a \<Rightarrow> (\<exists>x. a = append_error (clean_data n p) (append_message x))
          | Next u \<Rightarrow> True)"
        by blast
      from k have "w' = w\<lparr>trace := trace w @ replicate (Suc k) (Append row),
          sheet := sheet w @ replicate ((if wr then 1 else 0) + m') row\<rparr>"
        unfolding more .
      then have "\<exists>k m. w' = w\<lparr>trace := trace w @ replicate k (Append row),
                         sheet := sheet w @ replicate m row\<rparr>" by blast
      with fl show ?thesis by blast
    qed
  qed
qed


lemma structured_kinds:
  "structured_result (llm_error x)"
  "structured_result (error_result x)"
  "structured_result no_content"
  "structured_result (sheets_error d m)"
  "structured_result (append_error d m)"
  "structured_result (pokemon_sale n p t)"
  by (simp_all add: structured_result_def llm_error_def error_result_def no_content_def
      sheets_error_def append_error_def pokemon_sale_def result_def)

lemma append_block_cases:
  assumes n: "map_of kvs ''pokemon_name'' = Some n" and p: "map_of kvs ''payout'' = Some p"
    and run: "append_block e d (Some (Dict kvs)) ws w = (fl, w')"
  shows "\<exists>k m. trace w' = trace w @ Now # replicate k
                    (Append [strftime (clock_at e (calls is_Now w)), clean_name n, clean_payout p]) \<and>
               sheet w' = sheet w @ replicate m
                    [strftime (clock_at e (calls is_Now w)), clean_name n, clean_payout p]"
    and "case fl of Raise x \<Rightarrow> True | Return a \<Rightarrow> structured_result a | Next u \<Rightarrow> False"
proof -
  let ?row = "[strftime (clock_at e (calls is_Now w)), clean_name n, clean_payout p]"
  let ?P = "\<exists>k m. trace w' = trace w @ Now # replicate k (Append ?row) \<and>
               sheet w' = sheet w @ replicate m ?row"
  let ?Q = "case fl of Raise x \<Rightarrow> True | Return a \<Rightarrow> structured_result a | Next u \<Rightarrow> False"
  have "?P \<and> ?Q"
  proof (cases d)
    case (JObj kvs0)
    obtain fl1 w1 where al: "append_loop e ws ?row (clean_name n) (clean_payout p)
        [0..<max_retries] (record_call Now w) = (fl1, w1)"
      by (cases "append_loop e ws ?row (clean_name n) (clean_payout p)
        [0..<max_retries] (record_call Now w)")
    from append_loop_cases [OF al] obtain k m where
      w1: "w1 = (record_call Now w)\<lparr>trace := trace (record_call Now w) @ replicate k (Append ?row),
                  sheet := sheet (record_call Now w) @ replicate m ?row\<rparr>"
      and fl1: "case fl1 of Raise x \<Rightarrow> False
          | Return a \<Rightarrow> (\<exists>x. a = append_error (clean_data (clean_name n) (clean_payout p))
                                  (append_message x))
          | Next u \<Rightarrow> True"
      by blast
    from run have res: "(fl, w') = (case (fl1, w1) of
        (Next u, w2) \<Rightarrow>
          (Return (pokemon_sale (clean_name n) (clean_payout p)
                     (strftime (clock_at e (calls is_Now w)))), w2)
      | (fl, w2) \<Rightarrow> (fl, w2))"
      unfolding JObj append_block_run [OF n p] al by simp
    from res have w': "w' = w1" by (cases fl1) simp_all
    have "trace w' = trace w @ Now # replicate k (Append ?row) \<and>
               sheet w' = sheet w @ replicate m ?row"
      unfolding w' w1 by simp
    then have ?P by blast
    moreover from res fl1 have ?Q
      by (cases fl1) (auto simp: structured_kinds)
    ultimately show ?thesis ..
  next
    case JNull
    with run n p have "fl = Raise (AttributeError NoneType ''get'')" and w': "w' = record_call Now w"
      by (simp_all add: append_block_def now_def response_item_def dict_get_def)
    moreover have ?P by (rule exI [of _ 0], rule exI [of _ 0]) (simp add: w')
    ultimately show ?thesis by simp
  next
    case (JBool x)
    with run n p have "fl = Raise (AttributeError BoolT ''get'')" and w': "w' = record_call Now w"
      by (simp_all add: append_block_def now_def response_item_def dict_get_def)
    moreover have ?P by (rule exI [of _ 0], rule exI [of _ 0]) (simp add: w')
    ultimately show ?thesis by simp
  next
    case (JInt x)
    with run n p have "fl = Raise (AttributeError IntT ''get'')" and w': "w' = record_call Now w"
      by (simp_all add: append_block_def now_def response_item_def dict_get_def)
    moreover have ?P by (rule exI [of _ 0], rule exI [of _ 0]) (simp add: w')
    ultimately show ?thesis by simp
  next
    case (JFloat x)
    with run n p have "fl = Raise (AttributeError FloatT ''get'')" and w': "w' = record_call Now w"
      by (simp_all add: append_block_def now_def response_item_def dict_get_def)
    moreover have ?P by (rule exI [of _ 0], rule exI [of _ 0]) (simp add: w')
    ultimately show ?thesis by simp
  next
    case (JStr x)
    with run n p have "fl = Raise (AttributeError StrT ''get'')" and w': "w' = record_call Now w"
      by (simp_all add: append_block_def now_def response_item_def dict_get_def)
    moreover have ?P by (rule exI [of _ 0], rule exI [of _ 0]) (simp add: w')
    ultimately show ?thesis by simp
  next
    case (JArr x)
    with run n p have "fl = Raise (AttributeError ListT ''get'')" and w': "w' = record_call Now w"
      by (simp_all add: append_block_def now_def response_item_def dict_get_def)
    moreover have ?P by (rule exI [of _ 0], rule exI [of _ 0]) (simp add: w')
    ultimately show ?thesis by simp
  qed
  then show ?P and ?Q by blast+
qed


lemma append_stage_cases:
  assumes n: "map_of kvs ''pokemon_name'' = Some n" and p: "map_of kvs ''payout'' = Some p"
    and run: "append_stage e d (Some (Dict kvs)) (Some ws) w = (fl, w')"
  shows "\<exists>k m. trace w' = trace w @ Now # replicate k
                    (Append [strftime (clock_at e (calls is_Now w)), clean_name n, clean_payout p]) \<and>
               sheet w' = sheet w @ replicate m
                    [strftime (clock_at e (calls is_Now w)), clean_name n, clean_payout p]"
    and "\<exists>a. fl = Return a \<and> structured_result a"
proof -
  obtain fl0 w0 where blk: "append_block e d (Some (Dict kvs)) ws w = (fl0, w0)"
    by (cases "append_block e d (Some (Dict kvs)) ws w")
  note world = append_block_cases(1) [OF n p blk]
  note kind = append_block_cases(2) [OF n p blk]
  from run have res: "(fl, w') = (case (fl0, w0) of
             (Raise exc, w1) \<Rightarrow>
               (case raw_data (Some (Dict kvs)) of
                  Inl exc2 \<Rightarrow> (Raise exc2, w1)
                | Inr d \<Rightarrow>
                    (Return (append_error d (TextExc ''Google Sheets append error: '' exc)), w1))
           | (fl, w1) \<Rightarrow> (fl, w1))"
    by (simp add: append_stage_def blk)
  from res have w': "w' = w0"
    by (cases fl0) (simp_all add: raw_data_dict [OF n p])
  from world show "\<exists>k m. trace w' = trace w @ Now # replicate k
                    (Append [strftime (clock_at e (calls is_Now w)), clean_name n, clean_payout p]) \<and>
               sheet w' = sheet w @ replicate m
                    [strftime (clock_at e (calls is_Now w)), clean_name n, clean_payout p]"
    unfolding w' .
  from res kind show "\<exists>a. fl = Return a \<and> structured_result a"
    by (cases fl0) (simp_all add: raw_data_dict [OF n p] structured_kinds)
qed

lemma run_pipeline_cases:
  assumes run: "run_pipeline e d b w = (fl, w')"
  shows "\<exists>evs m ts n p.
           trace w' = trace w @ evs \<and> (\<forall>ev\<in>set evs. is_Invoke ev \<longrightarrow> ev = Invoke b) \<and>
           sheet w' = sheet w @ replicate m [ts, clean_name n, clean_payout p]"
    and "case fl of Raise x \<Rightarrow> True | Return a \<Rightarrow> structured_result a | Next u \<Rightarrow> False"
proof -
  let ?P = "\<exists>evs m ts n p.
           trace w' = trace w @ evs \<and> (\<forall>ev\<in>set evs. is_Invoke ev \<longrightarrow> ev = Invoke b) \<and>
           sheet w' = sheet w @ replicate m [ts, clean_name n, clean_payout p]"
  let ?Q = "case fl of Raise x \<Rightarrow> True | Return a \<Rightarrow> structured_result a | Next u \<Rightarrow> False"
  have none: "\<And>evs. trace w' = trace w @ evs \<Longrightarrow> \<forall>ev\<in>set evs. is_Invoke ev \<longrightarrow> ev = Invoke b \<Longrightarrow>
      sheet w' = sheet w \<Longrightarrow> ?P"
  proof -
    fix evs assume "trace w' = trace w @ evs" "\<forall>ev\<in>set evs. is_Invoke ev \<longrightarrow> ev = Invoke b"
      "sheet w' = sheet w"
    then have "trace w' = trace w @ evs \<and> (\<forall>ev\<in>set evs. is_Invoke ev \<longrightarrow> ev = Invoke b) \<and>
           sheet w' = sheet w @ replicate 0 [[], clean_name PyNone, clean_payout PyNone]"
      by simp
    then show ?P by blast
  qed
  have "?P \<and> ?Q"
  proof (cases "slice200 b")
    case (Inl x)
    with run have "fl = Raise x" and w': "w' = w" by (simp_all add: run_pipeline_def)
    moreover have ?P by (rule none [of "[]"]) (simp_all add: w')
    ultimately show ?thesis by simp
  next
    case (Inr shown)
    obtain fl1 w1 where l1: "llm_loop e b [0..<max_retries] None w = (fl1, w1)"
      by (cases "llm_loop e b [0..<max_retries] None w")
    from llm_loop_cases [OF l1] complete_attempts obtain k1 where
      w1: "w1 = w\<lparr>trace := trace w @ replicate k1 (Invoke b)\<rparr>"
      and fl1: "case fl1 of Raise x \<Rightarrow> False | Return a \<Rightarrow> (\<exists>x. a = llm_error x)
          | Next er' \<Rightarrow> (\<exists>r. er' = Some r \<and> validate_response r = Inr ())"
      by (cases fl1) auto
    show ?thesis
    proof (cases fl1)
      case (Raise x)
      with fl1 show ?thesis by simp
    next
      case (Return a)
      with run Inr l1 have "fl = Return a" and w': "w' = w1" by (simp_all add: run_pipeline_def)
      moreover from fl1 Return have "structured_result a" by (auto simp: structured_kinds)
      moreover have ?P by (rule none [of "replicate k1 (Invoke b)"]) (simp_all add: w' w1)
      ultimately show ?thesis by simp
    next
      case (Next er')
      with fl1 obtain r where er': "er' = Some r" and v: "validate_response r = Inr ()" by auto
      from valid_response_fields [OF v] obtain kvs n p where r: "r = Dict kvs"
        and n: "map_of kvs ''pokemon_name'' = Some n" and p: "map_of kvs ''payout'' = Some p"
        by blast
      obtain fl2 w2 where l2: "sheets_loop e (Some (Dict kvs)) [0..<max_retries] (None, None) w1
          = (fl2, w2)"
        by (cases "sheets_loop e (Some (Dict kvs)) [0..<max_retries] (None, None) w1")
      from sheets_loop_cases [OF l2] complete_attempts obtain k2 where
        w2: "w2 = w1\<lparr>trace := trace w1 @ replicate k2 Connect\<rparr>"
        and fl2: "case fl2 of Raise x \<Rightarrow> False
          | Return a \<Rightarrow> (\<exists>d. a = sheets_error d connect_message)
          | Next cw' \<Rightarrow> snd cw' = Some Worksheet"
        by (cases fl2) (auto simp: raw_data_dict [OF n p])
      from run Inr l1 Next er' r l2 have res: "(fl, w') =
          (case (fl2, w2) of
             (Raise exc, w2) \<Rightarrow> (Raise exc, w2)
           | (Return a, w2) \<Rightarrow> (Return a, w2)
           | (Next (client, worksheet), w2) \<Rightarrow>
               append_stage e d (Some (Dict kvs)) worksheet w2)"
        by (simp add: run_pipeline_def)
      have t2: "trace w2 = trace w @ replicate k1 (Invoke b) @ replicate k2 Connect"
        and s2: "sheet w2 = sheet w" by (simp_all add: w2 w1)
      show ?thesis
      proof (cases fl2)
        case (Raise x)
        with fl2 show ?thesis by simp
      next
        case (Return a)
        with res have "fl = Return a" and w': "w' = w2" by simp_all
        moreover from fl2 Return have "structured_result a" by (auto simp: structured_kinds)
        moreover have ?P
          by (rule none [of "replicate k1 (Invoke b) @ replicate k2 Connect"])
             (auto simp: w' t2 s2)
        ultimately show ?thesis by simp
      next
        case N: (Next cw')
        with fl2 obtain client where cw': "cw' = (client, Some Worksheet)"
          by (cases cw') auto
        from res N cw' have st: "append_stage e d (Some (Dict kvs)) (Some Worksheet) w2 = (fl, w')"
          by simp
        from append_stage_cases(1) [OF n p st] obtain k m where
          t: "trace w' = trace w2 @ Now # replicate k
                    (Append [strftime (clock_at e (calls is_Now w2)), clean_name n, clean_payout p])"
          and sh: "sheet w' = sheet w2 @ replicate m
                    [strftime (clock_at e (calls is_Now w2)), clean_name n, clean_payout p]"
          by blast
        from append_stage_cases(2) [OF n p st] have ?Q by auto
        moreover have "trace w' = trace w @ (replicate k1 (Invoke b) @ replicate k2 Connect @
            Now # replicate k
              (Append [strftime (clock_at e (calls is_Now w2)), clean_name n, clean_payout p])) \<and>
          (\<forall>ev\<in>set (replicate k1 (Invoke b) @ replicate k2 Connect @
            Now # replicate k
              (Append [strftime (clock_at e (calls is_Now w2)), clean_name n, clean_payout p])).
             is_Invoke ev \<longrightarrow> ev = Invoke b) \<and>
          sheet w' = sheet w @ replicate m
              [strftime (clock_at e (calls is_Now w2)), clean_name n, clean_payout p]"
          by (auto simp: t sh t2 s2)
        then have ?P by blast
        ultimately show ?thesis by simp
      qed
    qed
  qed
  then show ?P and ?Q by blast+
qed

lemma analyze_cases:
  assumes run: "analyze_with_llm e d pd w = (res, w')"
  shows "\<exists>a. res = Some a \<and> structured_result a"
    and "\<exists>evs m ts n p.
           trace w' = trace w @ evs \<and>
           (\<forall>b. select_body d = Inr b \<longrightarrow> (\<forall>ev\<in>set evs. is_Invoke ev \<longrightarrow> ev = Invoke b)) \<and>
           sheet w' = sheet w @ replicate m [ts, clean_name n, clean_payout p]"
proof -
  let ?A = "\<exists>a. res = Some a \<and> structured_result a"
  let ?B = "\<exists>evs m ts n p.
           trace w' = trace w @ evs \<and>
           (\<forall>b. select_body d = Inr b \<longrightarrow> (\<forall>ev\<in>set evs. is_Invoke ev \<longrightarrow> ev = Invoke b)) \<and>
           sheet w' = sheet w @ replicate m [ts, clean_name n, clean_payout p]"
  have same: "w' = w \<Longrightarrow> ?B"
  proof -
    assume "w' = w"
    then have "trace w' = trace w @ [] \<and>
           (\<forall>b. select_body d = Inr b \<longrightarrow> (\<forall>ev\<in>set []. is_Invoke ev \<longrightarrow> ev = Invoke b)) \<and>
           sheet w' = sheet w @ replicate 0 [[], clean_name PyNone, clean_payout PyNone]"
      by simp
    then show ?B by blast
  qed
  have "?A \<and> ?B"
  proof (cases "select_body d")
    case (Inl x)
    with run have "res = Some (error_result x)" and "w' = w"
      by (simp_all add: analyze_with_llm_def)
    with same show ?thesis by (simp add: structured_kinds)
  next
    case (Inr b)
    show ?thesis
    proof (cases "truthy b")
      case False
      with run Inr have "res = Some no_content" and "w' = w"
        by (simp_all add: analyze_with_llm_def)
      with same show ?thesis by (simp add: structured_kinds)
    next
      case True
      obtain fl w1 where rp: "run_pipeline e d b w = (fl, w1)"
        by (cases "run_pipeline e d b w")
      note world = run_pipeline_cases(1) [OF rp]
      note kind = run_pipeline_cases(2) [OF rp]
      from run Inr True rp have res: "(res, w') =
          (case (fl, w1) of
                 (Raise exc, w1) \<Rightarrow> (Some (error_result exc), w1)
               | (Return a, w1) \<Rightarrow> (Some a, w1)
               | (Next u, w1) \<Rightarrow> (None, w1))"
        by (simp add: analyze_with_llm_def)
      from res have w': "w' = w1" by (cases fl) simp_all
      from res kind have ?A by (cases fl) (simp_all add: structured_kinds)
      moreover from world have ?B unfolding w' Inr by simp
      ultimately show ?thesis ..
    qed
  qed
  then show ?A and ?B by blast+
qed

lemma clean_name_nonempty: "clean_name v \<noteq> []"
  by (simp add: clean_name_def Let_def)

lemma clean_payout_nonempty: "clean_payout v \<noteq> []"
  by (simp add: clean_payout_def Let_def)

lemma padded_run:
  "analyze_with_llm (sample_env (Returns padded_answer) Opened Appended)
     sale_details sale_parsed world0 =
   (Some (pokemon_sale ''Unknown Pokemon'' ''0'' ''2024-01-15 10:30:00''),
    world0\<lparr>trace := [Invoke (JStr sale_text), Connect, Now,
                       Append [''2024-01-15 10:30:00'', ''Unknown Pokemon'', ''0'']],
           sheet := [[''2024-01-15 10:30:00'', ''Unknown Pokemon'', ''0'']]\<rparr>)"
  by code_simp

lemma append_block_details:
  "append_block e (JObj kvs1) resp ws w = append_block e (JObj kvs2) resp ws w"
  by (simp add: append_block_def dict_get_def Let_def split: prod.splits sum.splits)

lemma append_stage_details:
  "append_stage e (JObj kvs1) resp worksheet w = append_stage e (JObj kvs2) resp worksheet w"
  by (simp add: append_stage_def append_block_details [of e kvs1 _ _ _ kvs2]
      split: option.splits)

lemma run_pipeline_details:
  "run_pipeline e (JObj kvs1) b w = run_pipeline e (JObj kvs2) b w"
  by (simp add: run_pipeline_def append_stage_details [of e kvs1 _ _ _ kvs2]
      split: sum.splits prod.splits flow.splits)

lemma analyze_by_body:
  assumes "select_body d1 = Inr b" and "select_body d2 = Inr b"
  shows "analyze_with_llm e d1 pd1 w = analyze_with_llm e d2 pd2 w"
proof -
  from select_body_dict [OF assms(1)] obtain kvs1 where d1: "d1 = JObj kvs1" by blast
  from select_body_dict [OF assms(2)] obtain kvs2 where d2: "d2 = JObj kvs2" by blast
  from assms show ?thesis
    unfolding d1 d2
    by (simp add: analyze_with_llm_def run_pipeline_details [of e kvs1 b w kvs2]
        split: sum.splits prod.splits flow.splits)
qed

lemma sale_run:
  "analyze_with_llm (sample_env (Returns charizard) Opened Appended)
     sale_details sale_parsed world0 =
   (Some (pokemon_sale ''Charizard VMAX'' ''135.00'' ''2024-01-15 10:30:00''),
    world0\<lparr>trace := [Invoke (JStr sale_text), Connect, Now,
                       Append [''2024-01-15 10:30:00'', ''Charizard VMAX'', ''135.00'']],
           sheet := [[''2024-01-15 10:30:00'', ''Charizard VMAX'', ''135.00'']]\<rparr>)"
  by code_simp

lemma is_dict_JObj: "is_dict v \<longleftrightarrow> (\<exists>kvs. v = JObj kvs)"
  by (cases v) (simp_all add: is_dict_def)

lemma read_payload_well_formed: "(\<exists>rd. read_payload req = Inr rd) \<longleftrightarrow> well_formed_request req"
proof (cases req)
  case (BadRequest m)
  then show ?thesis by (simp add: read_payload_def request_json_def well_formed_request_def)
next
  case (JsonBody data)
  show ?thesis
  proof (cases data)
    case (JObj kvs)
    show ?thesis
      unfolding JsonBody JObj
      by (auto simp: read_payload_def request_json_def well_formed_request_def dict_get_def
          is_dict_JObj split: option.splits jval.splits)
  qed (simp_all add: JsonBody read_payload_def request_json_def well_formed_request_def
      dict_get_def)
qed

lemma sale_request_payload:
  "read_payload sale_request =
     Inr \<lparr>rd_email_details = sale_details, rd_parsed_data = sale_parsed,
          rd_timestamp = JStr ''2024-01-15T10:30:00Z''\<rparr>"
  by code_simp

lemma null_request_payload:
  "read_payload (JsonBody JNull) = Inl (AttributeError NoneType ''get'')"
  by code_simp

lemma health_down:
  "connect_at e (calls is_Connect w) \<noteq> Opened \<Longrightarrow> health e w =
      (\<lparr>status_code = 200,
        body = HealthBody
          \<lparr>h_status = ''healthy'', h_service = ''email-llm-processor'',
           h_timestamp = isoformat (clock_at e (calls is_Now w)),
           google_sheets = ''disconnected'', groq_llm = ''available''\<rparr>\<rparr>,
       w\<lparr>trace := trace w @ [Connect, Now]\<rparr>)"
  by (cases "connect_at e (calls is_Connect w)")
     (simp_all add: health_def test_google_sheets_connection_def
        initialize_google_sheets_def now_def record_call_def calls_def)

lemma health_up:
  "connect_at e (calls is_Connect w) = Opened \<Longrightarrow> health e w =
      (\<lparr>status_code = 200,
        body = HealthBody
          \<lparr>h_status = ''healthy'', h_service = ''email-llm-processor'',
           h_timestamp = isoformat (clock_at e (Suc (calls is_Now w))),
           google_sheets =
             (if append_at e (calls is_Append w)
                   (test_row (strftime (clock_at e (calls is_Now w)))) = Appended
              then ''connected'' else ''disconnected''),
           groq_llm = ''available''\<rparr>\<rparr>,
       w\<lparr>trace := trace w @
              [Connect, Now, Append (test_row (strftime (clock_at e (calls is_Now w)))), Now],
         sheet := sheet w @
           (case append_at e (calls is_Append w)
                   (test_row (strftime (clock_at e (calls is_Now w)))) of
              Appended \<Rightarrow> [test_row (strftime (clock_at e (calls is_Now w)))]
            | AppendRaises wr m \<Rightarrow>
                if wr then [test_row (strftime (clock_at e (calls is_Now w)))] else [])\<rparr>)"
  by (cases "append_at e (calls is_Append w) (test_row (strftime (clock_at e (calls is_Now w))))")
     (simp_all add: health_def test_google_sheets_connection_def
        initialize_google_sheets_def now_def append_row_def record_call_def calls_def)

section \<open>Connecting writes nothing\<close>

text \<open>
  C9. \<^verbatim>\<open>initialize_google_sheets\<close> appends no row: a call leaves the rows of the sheet as
  they are and adds one connection to the trace, no append; two calls in a row leave the
  rows as they are as well.
\<close>

theorem connect_writes_nothing:
  "sheet (snd (initialize_google_sheets e w)) = sheet w \<and>
   trace (snd (initialize_google_sheets e w)) = trace w @ [Connect] \<and>
   calls is_Append (snd (initialize_google_sheets e w)) = calls is_Append w \<and>
   sheet (snd (initialize_google_sheets e (snd (initialize_google_sheets e w)))) = sheet w"
  by (simp add: initialize_google_sheets_def split: connect_outcome.splits)

section \<open>Extraction fails three times\<close>

text \<open>
  C1. The body is a non-empty text and each of the three calls of the model fails, by an
  exception or by an answer that the check of line 133 refuses (an answer without the field
  \<^verbatim>\<open>pokemon_name\<close> or without the field \<^verbatim>\<open>payout\<close> is refused). Then the result is
  \<^verbatim>\<open>llm_error\<close> with confidence 0.0 and the exception of the third call; the trace gains the
  three calls of the model and nothing else, so the sheet is neither connected to nor
  appended to, and its rows are unchanged.
\<close>

theorem extraction_exhausted:
  assumes body: "select_body email_details = Inr (JStr s)" and s: "s \<noteq> []"
    and fails: "\<forall>i<max_retries. \<exists>x. attempt_outcome (llm_at e (calls is_Invoke w + i) (JStr s)) = Inl x"
  shows "\<exists>x. attempt_outcome (llm_at e (calls is_Invoke w + 2) (JStr s)) = Inl x \<and>
           analyze_with_llm e email_details parsed_data w =
             (Some (llm_error x), w\<lparr>trace := trace w @ replicate 3 (Invoke (JStr s))\<rparr>) \<and>
           email_type (llm_error x) = ''llm_error'' \<and> confidence (llm_error x) = 0 \<and>
           extracted_data (llm_error x) = None"
proof -
  have "max_retries - 1 < max_retries" by (simp add: max_retries_def)
  with fails obtain x where
    x: "attempt_outcome (llm_at e (calls is_Invoke w + (max_retries - 1)) (JStr s)) = Inl x"
    by blast
  have pre: "\<forall>i<max_retries - 1. \<exists>x. attempt_outcome (llm_at e (calls is_Invoke w + i) (JStr s)) = Inl x"
    using fails by simp
  have loop: "llm_loop e (JStr s) [0..<max_retries] None w =
          (Return (llm_error x),
           w\<lparr>trace := trace w @ replicate (Suc (max_retries - 1)) (Invoke (JStr s))\<rparr>)"
    by (rule llm_loop_exhausts [OF pre x _ attempts_not_last attempts_last])
       (simp_all add: max_retries_def)
  have run: "run_pipeline e email_details (JStr s) w =
          (Return (llm_error x), w\<lparr>trace := trace w @ replicate 3 (Invoke (JStr s))\<rparr>)"
    unfolding run_pipeline_def loop by (simp add: slice200_def max_retries_def)
  have "analyze_with_llm e email_details parsed_data w =
          (Some (llm_error x), w\<lparr>trace := trace w @ replicate 3 (Invoke (JStr s))\<rparr>)"
    using s by (simp add: analyze_with_llm_def body run)
  moreover have "email_type (llm_error x) = ''llm_error'' \<and> confidence (llm_error x) = 0 \<and>
      extracted_data (llm_error x) = None"
    by (simp add: llm_error_def result_def)
  moreover from x have "attempt_outcome (llm_at e (calls is_Invoke w + 2) (JStr s)) = Inl x"
    by (simp add: max_retries_def)
  ultimately show ?thesis by blast
qed

theorem extraction_exhausted_witness:
  "analyze_with_llm
     (sample_env (Returns (Dict [(''pokemon_name'', PyStr ''Charizard VMAX'')])) Opened Appended)
     sale_details sale_parsed world0 =
   (Some (llm_error (ValueError ''Invalid LLM response - missing pokemon_name or payout'')),
    world0\<lparr>trace := replicate 3 (Invoke (JStr sale_text))\<rparr>)"
proof -
  let ?e = "sample_env (Returns (Dict [(''pokemon_name'', PyStr ''Charizard VMAX'')])) Opened Appended"
  have out: "\<And>k. attempt_outcome (llm_at ?e k (JStr sale_text)) =
      Inl (ValueError ''Invalid LLM response - missing pokemon_name or payout'')"
    by (simp add: sample_env_def attempt_outcome_def validate_response_def response_truthy_def
        response_get_def)
  have f: "\<forall>i<max_retries. \<exists>x. attempt_outcome (llm_at ?e (calls is_Invoke world0 + i) (JStr sale_text)) = Inl x"
    by (simp add: out)
  from extraction_exhausted [OF sale_body sale_text_nonempty f, of sale_parsed]
  show ?thesis by (simp add: out world0_def)
qed

section \<open>A recorded sale\<close>

text \<open>
  C2. The body is a non-empty text; the model gives a valid answer at its attempt \<open>j\<close>, the
  sheet opens at the connection attempt \<open>c\<close> and the append returns at its attempt \<open>a\<close>,
  earlier attempts failing. Then the result is \<^verbatim>\<open>pokemon_sale\<close> with confidence 0.95, the
  cleaned name and payout, the time of the clock in the shape \<^verbatim>\<open>YYYY-MM-DD HH:MM:SS\<close>,
  the risk \<^verbatim>\<open>low\<close> and the currency \<^verbatim>\<open>USD\<close>; every append call carries the row of the time,
  the cleaned name and the cleaned payout, and the rows added to the sheet are copies of
  that row (one copy when the first append returns).
\<close>

theorem sale_recorded:
  assumes body: "select_body email_details = Inr (JStr s)" and s: "s \<noteq> []"
    and j: "j < max_retries"
    and fails: "\<forall>i<j. \<exists>x. attempt_outcome (llm_at e (calls is_Invoke w + i) (JStr s)) = Inl x"
    and ok: "attempt_outcome (llm_at e (calls is_Invoke w + j) (JStr s)) = Inr (Dict kvs)"
    and n: "map_of kvs ''pokemon_name'' = Some n" and p: "map_of kvs ''payout'' = Some p"
    and c: "c < max_retries"
    and cfails: "\<forall>i<c. connect_at e (calls is_Connect w + i) \<noteq> Opened"
    and cok: "connect_at e (calls is_Connect w + c) = Opened"
    and valid: "valid_datetime (clock_at e (calls is_Now w))"
    and ts: "ts = strftime (clock_at e (calls is_Now w))"
    and row: "row = [ts, clean_name n, clean_payout p]"
    and a: "a < max_retries"
    and afails: "\<forall>i<a. \<exists>wr m. append_at e (calls is_Append w + i) row = AppendRaises wr m"
    and aok: "append_at e (calls is_Append w + a) row = Appended"
  shows "\<exists>k\<le>a.
           analyze_with_llm e email_details parsed_data w =
             (Some (pokemon_sale (clean_name n) (clean_payout p) ts),
              w\<lparr>trace := trace w @ replicate (Suc j) (Invoke (JStr s)) @
                             replicate (Suc c) Connect @ [Now] @ replicate (Suc a) (Append row),
                sheet := sheet w @ replicate (Suc k) row\<rparr>) \<and>
           email_type (pokemon_sale (clean_name n) (clean_payout p) ts) = ''pokemon_sale'' \<and>
           confidence (pokemon_sale (clean_name n) (clean_payout p) ts) = 0.95 \<and>
           extracted_data (pokemon_sale (clean_name n) (clean_payout p) ts) =
             Some \<lparr>ex_pokemon_name = PyStr (clean_name n), ex_payout = PyStr (clean_payout p),
                   ex_timestamp = Some ts\<rparr> \<and>
           risk_assessment (pokemon_sale (clean_name n) (clean_payout p) ts) = Some ''low'' \<and>
           financial_data (pokemon_sale (clean_name n) (clean_payout p) ts) =
             Some \<lparr>fin_payout = clean_payout p, currency = ''USD''\<rparr> \<and>
           timestamp_format ts"
proof -
  define w3 where "w3 = w\<lparr>trace := trace w @ replicate (Suc j) (Invoke (JStr s)) @
                      replicate (Suc c) Connect @ [Now]\<rparr>"
  have row': "row = [strftime (clock_at e (calls is_Now w)), clean_name n, clean_payout p]"
    unfolding row ts ..
  have cw3: "calls is_Append w3 = calls is_Append w"
    unfolding w3_def by (rule calls_before_append)
  have pre: "\<forall>i<a. \<exists>wr m. append_at e (calls is_Append w3 + i) row = AppendRaises wr m"
    using afails unfolding cw3 .
  have aok3: "append_at e (calls is_Append w3 + a) row = Appended"
    using aok unfolding cw3 .
  have "\<exists>k\<le>a.
      append_loop e Worksheet row (clean_name n) (clean_payout p) [0..<max_retries] w3 =
        (Next (), w3\<lparr>trace := trace w3 @ replicate (Suc a) (Append row),
                      sheet := sheet w3 @ replicate (Suc k) row\<rparr>)"
    by (rule append_loop_succeeds [OF pre aok3 _ attempts_not_last [OF a]]) (simp add: a)
  then obtain k where k: "k \<le> a"
    and loop: "append_loop e Worksheet row (clean_name n) (clean_payout p) [0..<max_retries] w3 =
        (Next (), w3\<lparr>trace := trace w3 @ replicate (Suc a) (Append row),
                      sheet := sheet w3 @ replicate (Suc k) row\<rparr>)"
    by blast
  have "run_pipeline e email_details (JStr s) w =
        (Return (pokemon_sale (clean_name n) (clean_payout p) ts),
         w3\<lparr>trace := trace w3 @ replicate (Suc a) (Append row),
            sheet := sheet w3 @ replicate (Suc k) row\<rparr>)"
    unfolding connected_run [OF body j fails ok n p c cfails cok row' w3_def] loop ts by simp
  then have "analyze_with_llm e email_details parsed_data w =
             (Some (pokemon_sale (clean_name n) (clean_payout p) ts),
              w\<lparr>trace := trace w @ replicate (Suc j) (Invoke (JStr s)) @
                             replicate (Suc c) Connect @ [Now] @ replicate (Suc a) (Append row),
                sheet := sheet w @ replicate (Suc k) row\<rparr>)"
    using s by (simp add: analyze_with_llm_def body w3_def)
  moreover have "email_type (pokemon_sale (clean_name n) (clean_payout p) ts) = ''pokemon_sale'' \<and>
           confidence (pokemon_sale (clean_name n) (clean_payout p) ts) = 0.95 \<and>
           extracted_data (pokemon_sale (clean_name n) (clean_payout p) ts) =
             Some \<lparr>ex_pokemon_name = PyStr (clean_name n), ex_payout = PyStr (clean_payout p),
                   ex_timestamp = Some ts\<rparr> \<and>
           risk_assessment (pokemon_sale (clean_name n) (clean_payout p) ts) = Some ''low'' \<and>
           financial_data (pokemon_sale (clean_name n) (clean_payout p) ts) =
             Some \<lparr>fin_payout = clean_payout p, currency = ''USD''\<rparr>"
    by (simp add: pokemon_sale_def)
  moreover have "timestamp_format ts" unfolding ts by (rule strftime_format [OF valid])
  ultimately show ?thesis using k by blast
qed

theorem sale_recorded_witness:
  "analyze_with_llm (sample_env (Returns charizard) Opened Appended)
     sale_details sale_parsed world0 =
   (Some (pokemon_sale ''Charizard VMAX'' ''135.00'' ''2024-01-15 10:30:00''),
    world0\<lparr>trace := [Invoke (JStr sale_text), Connect, Now,
                       Append [''2024-01-15 10:30:00'', ''Charizard VMAX'', ''135.00'']],
           sheet := [[''2024-01-15 10:30:00'', ''Charizard VMAX'', ''135.00'']]\<rparr>) \<and>
   timestamp_format ''2024-01-15 10:30:00''"
proof -
  let ?e = "sample_env (Returns charizard) Opened Appended"
  let ?row = "[''2024-01-15 10:30:00'', clean_name (PyStr ''Charizard VMAX''),
               clean_payout (PyStr ''135.00'')]"
  have j: "(0::nat) < max_retries" by (simp add: max_retries_def)
  have f: "\<forall>i<0. \<exists>x. attempt_outcome (llm_at ?e (calls is_Invoke world0 + i) (JStr sale_text)) = Inl x"
    by simp
  have ok: "attempt_outcome (llm_at ?e (calls is_Invoke world0 + 0) (JStr sale_text)) =
      Inr (Dict [(''pokemon_name'', PyStr ''Charizard VMAX''), (''payout'', PyStr ''135.00'')])"
    using charizard_valid by (simp add: sample_env_def charizard_def)
  have n: "map_of [(''pokemon_name'', PyStr ''Charizard VMAX''), (''payout'', PyStr ''135.00'')]
      ''pokemon_name'' = Some (PyStr ''Charizard VMAX'')" by simp
  have p: "map_of [(''pokemon_name'', PyStr ''Charizard VMAX''), (''payout'', PyStr ''135.00'')]
      ''payout'' = Some (PyStr ''135.00'')" by simp
  have cf: "\<forall>i<0. connect_at ?e (calls is_Connect world0 + i) \<noteq> Opened" by simp
  have cok: "connect_at ?e (calls is_Connect world0 + 0) = Opened"
    by (simp add: sample_env_def)
  have valid: "valid_datetime (clock_at ?e (calls is_Now world0))"
    by (simp add: sample_env_def morning_valid)
  have ts: "''2024-01-15 10:30:00'' = strftime (clock_at ?e (calls is_Now world0))"
    by (simp add: sample_env_def morning_text)
  have af: "\<forall>i<0. \<exists>wr m. append_at ?e (calls is_Append world0 + i) ?row = AppendRaises wr m"
    by simp
  have aok: "append_at ?e (calls is_Append world0 + 0) ?row = Appended"
    by (simp add: sample_env_def)
  from sale_recorded [OF sale_body sale_text_nonempty j f ok n p j cf cok valid ts refl j af aok,
      of sale_parsed]
  show ?thesis by (simp add: world0_def charizard_clean)
qed

section \<open>The sheet cannot be opened\<close>

text \<open>
  C5. The body is a non-empty text, the model gives a valid answer at its attempt \<open>j\<close> and
  the three connections fail. Then the result is \<^verbatim>\<open>sheets_error\<close> with confidence 0.8 and
  the two fields of the answer as the model returned them; the trace is the calls of the
  model followed by three connections, so the model is not called again after a connection
  has failed.
\<close>

theorem ledger_unavailable:
  assumes body: "select_body email_details = Inr (JStr s)" and s: "s \<noteq> []"
    and j: "j < max_retries"
    and fails: "\<forall>i<j. \<exists>x. attempt_outcome (llm_at e (calls is_Invoke w + i) (JStr s)) = Inl x"
    and ok: "attempt_outcome (llm_at e (calls is_Invoke w + j) (JStr s)) = Inr (Dict kvs)"
    and n: "map_of kvs ''pokemon_name'' = Some n" and p: "map_of kvs ''payout'' = Some p"
    and down: "\<forall>i<max_retries. connect_at e (calls is_Connect w + i) \<noteq> Opened"
  shows "analyze_with_llm e email_details parsed_data w =
           (Some (sheets_error \<lparr>ex_pokemon_name = n, ex_payout = p, ex_timestamp = None\<rparr>
                    connect_message),
            w\<lparr>trace := trace w @ replicate (Suc j) (Invoke (JStr s)) @ replicate 3 Connect\<rparr>)"
proof -
  let ?w1 = "w\<lparr>trace := trace w @ replicate (Suc j) (Invoke (JStr s))\<rparr>"
  have loop1: "llm_loop e (JStr s) [0..<max_retries] None w = (Next (Some (Dict kvs)), ?w1)"
    by (rule llm_loop_succeeds [OF fails ok _ attempts_not_last [OF j]]) (simp add: j)
  have down1: "\<forall>i\<le>max_retries - 1. connect_at e (calls is_Connect ?w1 + i) \<noteq> Opened"
    using down by (simp add: max_retries_def)
  have loop2: "sheets_loop e (Some (Dict kvs)) [0..<max_retries] (None, None) ?w1 =
      (Return (sheets_error \<lparr>ex_pokemon_name = n, ex_payout = p, ex_timestamp = None\<rparr>
                 connect_message),
       ?w1\<lparr>trace := trace ?w1 @ replicate (Suc (max_retries - 1)) Connect\<rparr>)"
    by (rule sheets_loop_exhausts [OF down1 raw_data_dict [OF n p] _ attempts_not_last attempts_last])
       (simp_all add: max_retries_def)
  have "run_pipeline e email_details (JStr s) w =
      (Return (sheets_error \<lparr>ex_pokemon_name = n, ex_payout = p, ex_timestamp = None\<rparr>
                 connect_message),
       w\<lparr>trace := trace w @ replicate (Suc j) (Invoke (JStr s)) @ replicate 3 Connect\<rparr>)"
    by (simp add: run_pipeline_def slice200_def loop1 loop2 del: replicate.simps)
       (simp add: max_retries_def)
  then show ?thesis
    using s by (simp add: analyze_with_llm_def body)
qed

theorem ledger_unavailable_witness:
  "analyze_with_llm (sample_env (Returns charizard) NoServiceAccountFile Appended)
     sale_details sale_parsed world0 =
   (Some (sheets_error
            \<lparr>ex_pokemon_name = PyStr ''Charizard VMAX'', ex_payout = PyStr ''135.00'',
             ex_timestamp = None\<rparr> connect_message),
    world0\<lparr>trace := [Invoke (JStr sale_text), Connect, Connect, Connect]\<rparr>)"
proof -
  let ?e = "sample_env (Returns charizard) NoServiceAccountFile Appended"
  have j: "(0::nat) < max_retries" by (simp add: max_retries_def)
  have f: "\<forall>i<0. \<exists>x. attempt_outcome (llm_at ?e (calls is_Invoke world0 + i) (JStr sale_text)) = Inl x"
    by simp
  have ok: "attempt_outcome (llm_at ?e (calls is_Invoke world0 + 0) (JStr sale_text)) =
      Inr (Dict [(''pokemon_name'', PyStr ''Charizard VMAX''), (''payout'', PyStr ''135.00'')])"
    using charizard_valid by (simp add: sample_env_def charizard_def)
  have n: "map_of [(''pokemon_name'', PyStr ''Charizard VMAX''), (''payout'', PyStr ''135.00'')]
      ''pokemon_name'' = Some (PyStr ''Charizard VMAX'')" by simp
  have p: "map_of [(''pokemon_name'', PyStr ''Charizard VMAX''), (''payout'', PyStr ''135.00'')]
      ''payout'' = Some (PyStr ''135.00'')" by simp
  have down: "\<forall>i<max_retries. connect_at ?e (calls is_Connect world0 + i) \<noteq> Opened"
    by (simp add: sample_env_def)
  from ledger_unavailable [OF sale_body sale_text_nonempty j f ok n p down, of sale_parsed]
  show ?thesis by (simp add: world0_def numeral_3_eq_3)
qed

section \<open>The append fails three times\<close>

text \<open>
  C6. The body is a non-empty text, the model gives a valid answer, the sheet opens and each
  of the three appends raises. Then the result is \<^verbatim>\<open>append_error\<close> with confidence 0.8 and
  the cleaned name and payout.
\<close>

theorem append_failed:
  assumes body: "select_body email_details = Inr (JStr s)" and s: "s \<noteq> []"
    and j: "j < max_retries"
    and fails: "\<forall>i<j. \<exists>x. attempt_outcome (llm_at e (calls is_Invoke w + i) (JStr s)) = Inl x"
    and ok: "attempt_outcome (llm_at e (calls is_Invoke w + j) (JStr s)) = Inr (Dict kvs)"
    and n: "map_of kvs ''pokemon_name'' = Some n" and p: "map_of kvs ''payout'' = Some p"
    and c: "c < max_retries"
    and cfails: "\<forall>i<c. connect_at e (calls is_Connect w + i) \<noteq> Opened"
    and cok: "connect_at e (calls is_Connect w + c) = Opened"
    and row: "row = [strftime (clock_at e (calls is_Now w)), clean_name n, clean_payout p]"
    and afails: "\<forall>i<max_retries. \<exists>wr m. append_at e (calls is_Append w + i) row = AppendRaises wr m"
  shows "\<exists>k\<le>3. \<exists>wr m. append_at e (calls is_Append w + 2) row = AppendRaises wr m \<and>
           analyze_with_llm e email_details parsed_data w =
             (Some (append_error (clean_data (clean_name n) (clean_payout p))
                      (append_message (LibraryError m))),
              w\<lparr>trace := trace w @ replicate (Suc j) (Invoke (JStr s)) @
                             replicate (Suc c) Connect @ [Now] @ replicate 3 (Append row),
                sheet := sheet w @ replicate k row\<rparr>) \<and>
           email_type (append_error (clean_data (clean_name n) (clean_payout p))
                      (append_message (LibraryError m))) = ''append_error'' \<and>
           confidence (append_error (clean_data (clean_name n) (clean_payout p))
                      (append_message (LibraryError m))) = 0.8 \<and>
           extracted_data (append_error (clean_data (clean_name n) (clean_payout p))
                      (append_message (LibraryError m))) =
             Some \<lparr>ex_pokemon_name = PyStr (clean_name n), ex_payout = PyStr (clean_payout p),
                   ex_timestamp = None\<rparr>"
proof -
  define w3 where "w3 = w\<lparr>trace := trace w @ replicate (Suc j) (Invoke (JStr s)) @
                      replicate (Suc c) Connect @ [Now]\<rparr>"
  have cw3: "calls is_Append w3 = calls is_Append w"
    unfolding w3_def by (rule calls_before_append)
  have "max_retries - 1 < max_retries" by (simp add: max_retries_def)
  with afails obtain wr m where
    last: "append_at e (calls is_Append w + (max_retries - 1)) row = AppendRaises wr m"
    by blast
  have pre: "\<forall>i<max_retries - 1. \<exists>wr m. append_at e (calls is_Append w3 + i) row = AppendRaises wr m"
    using afails unfolding cw3 by simp
  have last3: "append_at e (calls is_Append w3 + (max_retries - 1)) row = AppendRaises wr m"
    using last unfolding cw3 .
  have "\<exists>k\<le>Suc (max_retries - 1).
      append_loop e Worksheet row (clean_name n) (clean_payout p) [0..<max_retries] w3 =
        (Return (append_error (clean_data (clean_name n) (clean_payout p))
                   (append_message (LibraryError m))),
         w3\<lparr>trace := trace w3 @ replicate (Suc (max_retries - 1)) (Append row),
            sheet := sheet w3 @ replicate k row\<rparr>)"
    by (rule append_loop_exhausts [OF pre last3 _ attempts_not_last attempts_last])
       (simp_all add: max_retries_def)
  then obtain k where k: "k \<le> 3"
    and loop: "append_loop e Worksheet row (clean_name n) (clean_payout p) [0..<max_retries] w3 =
        (Return (append_error (clean_data (clean_name n) (clean_payout p))
                   (append_message (LibraryError m))),
         w3\<lparr>trace := trace w3 @ replicate 3 (Append row),
            sheet := sheet w3 @ replicate k row\<rparr>)"
    by (auto simp: max_retries_def simp del: replicate.simps)
  have "run_pipeline e email_details (JStr s) w =
        (Return (append_error (clean_data (clean_name n) (clean_payout p))
                   (append_message (LibraryError m))),
         w3\<lparr>trace := trace w3 @ replicate 3 (Append row),
            sheet := sheet w3 @ replicate k row\<rparr>)"
    unfolding connected_run [OF body j fails ok n p c cfails cok row w3_def] loop by simp
  then have "analyze_with_llm e email_details parsed_data w =
             (Some (append_error (clean_data (clean_name n) (clean_payout p))
                      (append_message (LibraryError m))),
              w\<lparr>trace := trace w @ replicate (Suc j) (Invoke (JStr s)) @
                             replicate (Suc c) Connect @ [Now] @ replicate 3 (Append row),
                sheet := sheet w @ replicate k row\<rparr>)"
    using s by (simp add: analyze_with_llm_def body w3_def)
  moreover from last have "append_at e (calls is_Append w + 2) row = AppendRaises wr m"
    by (simp add: max_retries_def)
  moreover have "email_type (append_error (clean_data (clean_name n) (clean_payout p))
                      (append_message (LibraryError m))) = ''append_error'' \<and>
           confidence (append_error (clean_data (clean_name n) (clean_payout p))
                      (append_message (LibraryError m))) = 0.8 \<and>
           extracted_data (append_error (clean_data (clean_name n) (clean_payout p))
                      (append_message (LibraryError m))) =
             Some \<lparr>ex_pokemon_name = PyStr (clean_name n), ex_payout = PyStr (clean_payout p),
                   ex_timestamp = None\<rparr>"
    by (simp add: append_error_def result_def clean_data_def)
  ultimately show ?thesis using k by blast
qed

theorem append_failed_witness:
  "\<exists>k\<le>3.
     analyze_with_llm (sample_env (Returns charizard) Opened (AppendRaises False ''quota exceeded''))
       sale_details sale_parsed world0 =
     (Some (append_error (clean_data ''Charizard VMAX'' ''135.00'')
              (append_message (LibraryError ''quota exceeded''))),
      world0\<lparr>trace := [Invoke (JStr sale_text), Connect, Now,
                         Append [''2024-01-15 10:30:00'', ''Charizard VMAX'', ''135.00''],
                         Append [''2024-01-15 10:30:00'', ''Charizard VMAX'', ''135.00''],
                         Append [''2024-01-15 10:30:00'', ''Charizard VMAX'', ''135.00'']],
             sheet := replicate k [''2024-01-15 10:30:00'', ''Charizard VMAX'', ''135.00'']\<rparr>)"
proof -
  let ?e = "sample_env (Returns charizard) Opened (AppendRaises False ''quota exceeded'')"
  let ?row = "[strftime (clock_at ?e (calls is_Now world0)), clean_name (PyStr ''Charizard VMAX''),
               clean_payout (PyStr ''135.00'')]"
  have j: "(0::nat) < max_retries" by (simp add: max_retries_def)
  have f: "\<forall>i<0. \<exists>x. attempt_outcome (llm_at ?e (calls is_Invoke world0 + i) (JStr sale_text)) = Inl x"
    by simp
  have ok: "attempt_outcome (llm_at ?e (calls is_Invoke world0 + 0) (JStr sale_text)) =
      Inr (Dict [(''pokemon_name'', PyStr ''Charizard VMAX''), (''payout'', PyStr ''135.00'')])"
    using charizard_valid by (simp add: sample_env_def charizard_def)
  have n: "map_of [(''pokemon_name'', PyStr ''Charizard VMAX''), (''payout'', PyStr ''135.00'')]
      ''pokemon_name'' = Some (PyStr ''Charizard VMAX'')" by simp
  have p: "map_of [(''pokemon_name'', PyStr ''Charizard VMAX''), (''payout'', PyStr ''135.00'')]
      ''payout'' = Some (PyStr ''135.00'')" by simp
  have cf: "\<forall>i<0. connect_at ?e (calls is_Connect world0 + i) \<noteq> Opened" by simp
  have cok: "connect_at ?e (calls is_Connect world0 + 0) = Opened"
    by (simp add: sample_env_def)
  have af: "\<forall>i<max_retries. \<exists>wr m. append_at ?e (calls is_Append world0 + i) ?row = AppendRaises wr m"
    by (auto simp: sample_env_def)
  from append_failed [OF sale_body sale_text_nonempty j f ok n p j cf cok refl af, of sale_parsed]
  show ?thesis
    by (auto simp: world0_def charizard_clean sample_env_def morning_text numeral_3_eq_3)
qed

section \<open>Normalisation of the fields\<close>

text \<open>
  C3, as amended. A field whose text, stripped of whitespace, is empty or \<^verbatim>\<open>N/A\<close> becomes
  \<^verbatim>\<open>Unknown Pokemon\<close> as a name and \<^verbatim>\<open>0\<close> as a payout, and any other field becomes its
  stripped text; every row that a run of \<^verbatim>\<open>analyze_with_llm\<close> adds to the sheet holds a
  time, a cleaned name and a cleaned payout, neither of them empty. An answer with the name
  \<^verbatim>\<open>""\<close> and the payout \<^verbatim>\<open>N/A\<close> does not reach the append: the check of line 133 refuses it,
  and the attempt counts as failed.
\<close>

theorem persisted_fields_normalised:
  "(strip (py_str v) = [] \<or> strip (py_str v) = ''N/A'' \<longrightarrow>
      clean_name v = ''Unknown Pokemon'' \<and> clean_payout v = ''0'') \<and>
   (strip (py_str v) \<noteq> [] \<and> strip (py_str v) \<noteq> ''N/A'' \<longrightarrow>
      clean_name v = strip (py_str v) \<and> clean_payout v = strip (py_str v)) \<and>
   (analyze_with_llm e d pd w = (res, w') \<longrightarrow>
      (\<exists>m ts n p. sheet w' = sheet w @ replicate m [ts, clean_name n, clean_payout p] \<and>
         clean_name n \<noteq> [] \<and> clean_payout p \<noteq> [])) \<and>
   attempt_outcome (Returns (Dict [(''pokemon_name'', PyStr []), (''payout'', PyStr ''N/A'')])) =
     Inl (ValueError ''Invalid LLM response - missing pokemon_name or payout'')"
proof -
  have "analyze_with_llm e d pd w = (res, w') \<longrightarrow>
      (\<exists>m ts n p. sheet w' = sheet w @ replicate m [ts, clean_name n, clean_payout p] \<and>
         clean_name n \<noteq> [] \<and> clean_payout p \<noteq> [])"
  proof
    assume "analyze_with_llm e d pd w = (res, w')"
    from analyze_cases(2) [OF this] obtain m ts n p where
      "sheet w' = sheet w @ replicate m [ts, clean_name n, clean_payout p]" by blast
    then show "\<exists>m ts n p. sheet w' = sheet w @ replicate m [ts, clean_name n, clean_payout p] \<and>
         clean_name n \<noteq> [] \<and> clean_payout p \<noteq> []"
      using clean_name_nonempty clean_payout_nonempty by blast
  qed
  moreover have "attempt_outcome
      (Returns (Dict [(''pokemon_name'', PyStr []), (''payout'', PyStr ''N/A'')])) =
     Inl (ValueError ''Invalid LLM response - missing pokemon_name or payout'')"
    by (simp add: attempt_outcome_def validate_response_def response_truthy_def response_get_def)
  ultimately show ?thesis
    by (simp add: clean_name_def clean_payout_def Let_def)
qed

theorem persisted_fields_normalised_witness:
  "clean_name (PyStr '' '') = ''Unknown Pokemon'' \<and> clean_payout (PyStr '' N/A '') = ''0'' \<and>
   clean_name (PyStr '' Charizard VMAX '') = ''Charizard VMAX'' \<and>
   (\<exists>m ts n p.
      sheet (world0\<lparr>trace := [Invoke (JStr sale_text), Connect, Now,
                       Append [''2024-01-15 10:30:00'', ''Unknown Pokemon'', ''0'']],
           sheet := [[''2024-01-15 10:30:00'', ''Unknown Pokemon'', ''0'']]\<rparr>) =
        sheet world0 @ replicate m [ts, clean_name n, clean_payout p] \<and>
      clean_name n \<noteq> [] \<and> clean_payout p \<noteq> [])"
proof -
  have s1: "strip (py_str (PyStr '' '')) = []" by code_simp
  have s2: "strip (py_str (PyStr '' N/A '')) = ''N/A''" by code_simp
  have s3: "strip (py_str (PyStr '' Charizard VMAX '')) = ''Charizard VMAX''" by code_simp
  from persisted_fields_normalised [of "PyStr '' ''"] s1
  have "clean_name (PyStr '' '') = ''Unknown Pokemon''" by simp
  moreover from persisted_fields_normalised [of "PyStr '' N/A ''"] s2
  have "clean_payout (PyStr '' N/A '') = ''0''" by simp
  moreover from persisted_fields_normalised [of "PyStr '' Charizard VMAX ''"] s3
  have "clean_name (PyStr '' Charizard VMAX '') = ''Charizard VMAX''" by simp
  moreover from persisted_fields_normalised
    [of _ "sample_env (Returns padded_answer) Opened Appended" sale_details sale_parsed world0]
    padded_run
  have "\<exists>m ts n p.
      sheet (world0\<lparr>trace := [Invoke (JStr sale_text), Connect, Now,
                       Append [''2024-01-15 10:30:00'', ''Unknown Pokemon'', ''0'']],
           sheet := [[''2024-01-15 10:30:00'', ''Unknown Pokemon'', ''0'']]\<rparr>) =
        sheet world0 @ replicate m [ts, clean_name n, clean_payout p] \<and>
      clean_name n \<noteq> [] \<and> clean_payout p \<noteq> []"
    by blast
  ultimately show ?thesis by blast
qed

text \<open>
  The claim as the specification states it fails: the sentinel of the name is not
  \<^verbatim>\<open>Unknown Item\<close>, and with a working sheet the answer \<^verbatim>\<open>{"pokemon_name": "", "payout":
  "N/A"}\<close> ends in \<^verbatim>\<open>llm_error\<close> after three calls of the model, with no row appended.
\<close>

theorem normalisation_counterexample:
  "clean_name (PyStr []) \<noteq> ''Unknown Item'' \<and>
   analyze_with_llm (sample_env (Returns blank_answer) Opened Appended)
     sale_details sale_parsed world0 =
   (Some (llm_error (ValueError ''Invalid LLM response - missing pokemon_name or payout'')),
    world0\<lparr>trace := replicate 3 (Invoke (JStr sale_text))\<rparr>) \<and>
   sheet (snd (analyze_with_llm (sample_env (Returns blank_answer) Opened Appended)
     sale_details sale_parsed world0)) = []"
proof -
  let ?e = "sample_env (Returns blank_answer) Opened Appended"
  have out: "\<And>k. attempt_outcome (llm_at ?e k (JStr sale_text)) =
      Inl (ValueError ''Invalid LLM response - missing pokemon_name or payout'')"
    by (simp add: sample_env_def attempt_outcome_def validate_response_def response_truthy_def
        response_get_def blank_answer_def)
  have loop: "llm_loop ?e (JStr sale_text) [0..<max_retries] None world0 =
      (Return (llm_error (ValueError ''Invalid LLM response - missing pokemon_name or payout'')),
       world0\<lparr>trace := trace world0 @ replicate (Suc (max_retries - 1)) (Invoke (JStr sale_text))\<rparr>)"
    by (rule llm_loop_exhausts [OF _ _ _ attempts_not_last attempts_last])
       (simp_all add: out max_retries_def)
  have run: "analyze_with_llm ?e sale_details sale_parsed world0 =
   (Some (llm_error (ValueError ''Invalid LLM response - missing pokemon_name or payout'')),
    world0\<lparr>trace := replicate 3 (Invoke (JStr sale_text))\<rparr>)"
    by (simp add: analyze_with_llm_def sale_body run_pipeline_def slice200_def loop
        sale_text_nonempty)
       (simp add: world0_def numeral_3_eq_3 max_retries_def)
  have "clean_name (PyStr []) \<noteq> ''Unknown Item''"
    by (simp add: clean_name_def strip_def)
  with run show ?thesis by (simp add: world0_def)
qed

section \<open>An empty body\<close>

text \<open>
  C4. When the text body and the HTML body of the payload are both missing or false (empty),
  \<^verbatim>\<open>analyze_with_llm\<close> returns \<^verbatim>\<open>no_content\<close> with confidence 0.0 and leaves the world as
  it was: the model is not called, and the sheet is neither opened nor appended to.
\<close>

theorem empty_body_no_content:
  assumes "dict_get email_details ''body'' (JObj []) = Inr email_body"
    and "dict_get email_body ''textBody'' (JStr []) = Inr text_body" and "\<not> truthy text_body"
    and "dict_get email_body ''htmlBody'' (JStr []) = Inr html_body" and "\<not> truthy html_body"
  shows "analyze_with_llm e email_details parsed_data w = (Some no_content, w) \<and>
         email_type no_content = ''no_content'' \<and> confidence no_content = 0 \<and>
         error no_content = Some (Text ''No email body content found'')"
  using assms
  by (simp add: analyze_with_llm_def select_body_def no_content_def result_def)

theorem empty_body_no_content_witness:
  "analyze_with_llm (sample_env (Returns charizard) Opened Appended)
     (JObj [(''from'', JStr ''cs@email.fanaticscollect.com''),
            (''body'', JObj [(''textBody'', JStr []), (''htmlBody'', JNull)])])
     sale_parsed world0 = (Some no_content, world0) \<and>
   analyze_with_llm (sample_env (Returns charizard) Opened Appended)
     (JObj [(''from'', JStr ''cs@email.fanaticscollect.com'')])
     sale_parsed world0 = (Some no_content, world0)"
proof -
  have "analyze_with_llm (sample_env (Returns charizard) Opened Appended)
     (JObj [(''from'', JStr ''cs@email.fanaticscollect.com''),
            (''body'', JObj [(''textBody'', JStr []), (''htmlBody'', JNull)])])
     sale_parsed world0 = (Some no_content, world0)"
    using empty_body_no_content
      [of "JObj [(''from'', JStr ''cs@email.fanaticscollect.com''),
            (''body'', JObj [(''textBody'', JStr []), (''htmlBody'', JNull)])]"
          "JObj [(''textBody'', JStr []), (''htmlBody'', JNull)]" "JStr []" JNull]
    by (simp add: dict_get_def)
  moreover have "analyze_with_llm (sample_env (Returns charizard) Opened Appended)
     (JObj [(''from'', JStr ''cs@email.fanaticscollect.com'')])
     sale_parsed world0 = (Some no_content, world0)"
    using empty_body_no_content
      [of "JObj [(''from'', JStr ''cs@email.fanaticscollect.com'')]" "JObj []" "JStr []" "JStr []"]
    by (simp add: dict_get_def)
  ultimately show ?thesis ..
qed

section \<open>The status of \<^verbatim>\<open>/process\<close>\<close>

text \<open>
  C7. \<^verbatim>\<open>process\<close> answers 500 with the body \<^verbatim>\<open>{"error": str(e)}\<close> exactly when the payload
  cannot be read (the body is not JSON, or it, its \<^verbatim>\<open>email_details\<close> or its \<^verbatim>\<open>parsed_data\<close>
  is not an object), and then nothing outside is called. Every other request is answered 200
  with the body \<^verbatim>\<open>{"status": "success", "received_data", "llm_analysis"}\<close>, whose analysis is
  a structured result; when its kind is \<^verbatim>\<open>no_content\<close>, \<^verbatim>\<open>llm_error\<close>, \<^verbatim>\<open>sheets_error\<close> or
  \<^verbatim>\<open>append_error\<close> it carries an error text and the confidence 0.0 or 0.8.
\<close>

theorem process_status:
  "(\<forall>exc. read_payload req = Inl exc \<longrightarrow>
      process e req w = (\<lparr>status_code = 500, body = ErrorBody exc\<rparr>, w)) \<and>
   (\<forall>rd. read_payload req = Inr rd \<longrightarrow>
      (\<exists>a w'. analyze_with_llm e (rd_email_details rd) (rd_parsed_data rd) w = (Some a, w') \<and>
         process e req w =
           (\<lparr>status_code = 200, body = ProcessBody ''success'' rd (Some a)\<rparr>, w') \<and>
         structured_result a \<and>
         (email_type a = ''no_content'' \<or> email_type a = ''llm_error'' \<or>
          email_type a = ''sheets_error'' \<or> email_type a = ''append_error'' \<longrightarrow>
            error a \<noteq> None \<and> (confidence a = 0 \<or> confidence a = 0.8)))) \<and>
   (status_code (fst (process e req w)) = 500 \<longleftrightarrow> \<not> well_formed_request req) \<and>
   (status_code (fst (process e req w)) = 200 \<longleftrightarrow> well_formed_request req)"
proof -
  have bad: "\<forall>exc. read_payload req = Inl exc \<longrightarrow>
      process e req w = (\<lparr>status_code = 500, body = ErrorBody exc\<rparr>, w)"
    by (simp add: process_def)
  have good: "\<forall>rd. read_payload req = Inr rd \<longrightarrow>
      (\<exists>a w'. analyze_with_llm e (rd_email_details rd) (rd_parsed_data rd) w = (Some a, w') \<and>
         process e req w =
           (\<lparr>status_code = 200, body = ProcessBody ''success'' rd (Some a)\<rparr>, w') \<and>
         structured_result a \<and>
         (email_type a = ''no_content'' \<or> email_type a = ''llm_error'' \<or>
          email_type a = ''sheets_error'' \<or> email_type a = ''append_error'' \<longrightarrow>
            error a \<noteq> None \<and> (confidence a = 0 \<or> confidence a = 0.8)))"
  proof (intro allI impI)
    fix rd assume rd: "read_payload req = Inr rd"
    obtain res w' where run:
      "analyze_with_llm e (rd_email_details rd) (rd_parsed_data rd) w = (res, w')"
      by (cases "analyze_with_llm e (rd_email_details rd) (rd_parsed_data rd) w")
    from analyze_cases(1) [OF run] obtain a where a: "res = Some a" and st: "structured_result a"
      by blast
    have "process e req w =
        (\<lparr>status_code = 200, body = ProcessBody ''success'' rd (Some a)\<rparr>, w')"
      by (simp add: process_def rd run a)
    moreover from st have "email_type a = ''no_content'' \<or> email_type a = ''llm_error'' \<or>
          email_type a = ''sheets_error'' \<or> email_type a = ''append_error'' \<longrightarrow>
            error a \<noteq> None \<and> (confidence a = 0 \<or> confidence a = 0.8)"
      by (auto simp: structured_result_def split: if_splits)
    ultimately show "\<exists>a w'.
         analyze_with_llm e (rd_email_details rd) (rd_parsed_data rd) w = (Some a, w') \<and>
         process e req w =
           (\<lparr>status_code = 200, body = ProcessBody ''success'' rd (Some a)\<rparr>, w') \<and>
         structured_result a \<and>
         (email_type a = ''no_content'' \<or> email_type a = ''llm_error'' \<or>
          email_type a = ''sheets_error'' \<or> email_type a = ''append_error'' \<longrightarrow>
            error a \<noteq> None \<and> (confidence a = 0 \<or> confidence a = 0.8))"
      using run a st by blast
  qed
  have status: "status_code (fst (process e req w)) =
      (if well_formed_request req then 200 else 500)"
  proof (cases "read_payload req")
    case (Inl exc)
    with read_payload_well_formed [of req] have "\<not> well_formed_request req" by auto
    with bad Inl show ?thesis by simp
  next
    case (Inr rd)
    with read_payload_well_formed [of req] have "well_formed_request req" by auto
    moreover from good Inr obtain a w' where "process e req w =
           (\<lparr>status_code = 200, body = ProcessBody ''success'' rd (Some a)\<rparr>, w')" by blast
    ultimately show ?thesis by simp
  qed
  from bad good status show ?thesis by simp
qed

theorem process_status_witness:
  "(\<exists>a w'. process (sample_env (Raises ''rate limit'') Opened Appended) sale_request world0 =
      (\<lparr>status_code = 200,
        body = ProcessBody ''success''
                 \<lparr>rd_email_details = sale_details, rd_parsed_data = sale_parsed,
                  rd_timestamp = JStr ''2024-01-15T10:30:00Z''\<rparr> (Some a)\<rparr>, w') \<and>
      structured_result a) \<and>
   process (sample_env (Raises ''rate limit'') Opened Appended) (JsonBody JNull) world0 =
      (\<lparr>status_code = 500, body = ErrorBody (AttributeError NoneType ''get'')\<rparr>, world0) \<and>
   status_code (fst (process (sample_env (Raises ''rate limit'') Opened Appended)
      (BadRequest ''Failed to decode JSON object'') world0)) = 500"
proof -
  let ?e = "sample_env (Raises ''rate limit'') Opened Appended"
  from process_status [of sale_request ?e world0] sale_request_payload
  have "\<exists>a w'. process ?e sale_request world0 =
      (\<lparr>status_code = 200,
        body = ProcessBody ''success''
                 \<lparr>rd_email_details = sale_details, rd_parsed_data = sale_parsed,
                  rd_timestamp = JStr ''2024-01-15T10:30:00Z''\<rparr> (Some a)\<rparr>, w') \<and>
      structured_result a"
    by blast
  moreover from process_status [of "JsonBody JNull" ?e world0] null_request_payload
  have "process ?e (JsonBody JNull) world0 =
      (\<lparr>status_code = 500, body = ErrorBody (AttributeError NoneType ''get'')\<rparr>, world0)"
    by blast
  moreover have "\<not> well_formed_request (BadRequest ''Failed to decode JSON object'')"
    by (simp add: well_formed_request_def)
  with process_status [of "BadRequest ''Failed to decode JSON object''" ?e world0]
  have "status_code (fst (process ?e (BadRequest ''Failed to decode JSON object'') world0)) = 500"
    by blast
  ultimately show ?thesis by blast
qed

section \<open>The health check\<close>

text \<open>
  C8. \<^verbatim>\<open>health\<close> answers 200; it connects to the sheet and, when the sheet opens, appends
  the row of the time, \<^verbatim>\<open>TEST_POKEMON\<close> and \<^verbatim>\<open>0\<close>. It reports \<^verbatim>\<open>connected\<close> exactly when
  the sheet opens and the append returns, \<^verbatim>\<open>disconnected\<close> otherwise, and \<^verbatim>\<open>available\<close> for
  the model whatever the model would answer (the model is not called). Two calls in a row
  with a working sheet append two rows.
\<close>

theorem health_round_trip:
  "(\<exists>rep. fst (health e w) = \<lparr>status_code = 200, body = HealthBody rep\<rparr> \<and>
      h_status rep = ''healthy'' \<and> groq_llm rep = ''available'' \<and>
      google_sheets rep =
        (if connect_at e (calls is_Connect w) = Opened \<and>
            append_at e (calls is_Append w)
              (test_row (strftime (clock_at e (calls is_Now w)))) = Appended
         then ''connected'' else ''disconnected'')) \<and>
   (connect_at e (calls is_Connect w) \<noteq> Opened \<longrightarrow>
      snd (health e w) = w\<lparr>trace := trace w @ [Connect, Now]\<rparr>) \<and>
   (connect_at e (calls is_Connect w) = Opened \<longrightarrow>
      (\<exists>rows. snd (health e w) =
         w\<lparr>trace := trace w @
                [Connect, Now, Append (test_row (strftime (clock_at e (calls is_Now w)))), Now],
           sheet := sheet w @ rows\<rparr> \<and>
         (append_at e (calls is_Append w)
            (test_row (strftime (clock_at e (calls is_Now w)))) = Appended \<longrightarrow>
          rows = [test_row (strftime (clock_at e (calls is_Now w)))]))) \<and>
   (connect_at e (calls is_Connect w) = Opened \<and>
    append_at e (calls is_Append w)
      (test_row (strftime (clock_at e (calls is_Now w)))) = Appended \<and>
    connect_at e (Suc (calls is_Connect w)) = Opened \<and>
    append_at e (Suc (calls is_Append w))
      (test_row (strftime (clock_at e (calls is_Now w + 2)))) = Appended \<longrightarrow>
      sheet (snd (health e (snd (health e w)))) =
        sheet w @ [test_row (strftime (clock_at e (calls is_Now w))),
                   test_row (strftime (clock_at e (calls is_Now w + 2)))])"
proof -
  let ?c = "connect_at e (calls is_Connect w)"
  let ?row = "test_row (strftime (clock_at e (calls is_Now w)))"
  let ?a = "append_at e (calls is_Append w) ?row"
  note down = health_down [of e w]
  note up = health_up [of e w]
  have first: "\<exists>rep. fst (health e w) = \<lparr>status_code = 200, body = HealthBody rep\<rparr> \<and>
      h_status rep = ''healthy'' \<and> groq_llm rep = ''available'' \<and>
      google_sheets rep = (if ?c = Opened \<and> ?a = Appended then ''connected'' else ''disconnected'')"
  proof (cases "?c = Opened")
    case True
    from up [OF True] True show ?thesis by simp
  next
    case False
    from down [OF False] False show ?thesis by simp
  qed
  have second: "?c \<noteq> Opened \<longrightarrow> snd (health e w) = w\<lparr>trace := trace w @ [Connect, Now]\<rparr>"
    using down by simp
  have third: "?c = Opened \<longrightarrow>
      (\<exists>rows. snd (health e w) =
         w\<lparr>trace := trace w @ [Connect, Now, Append ?row, Now], sheet := sheet w @ rows\<rparr> \<and>
         (?a = Appended \<longrightarrow> rows = [?row]))"
  proof
    assume c: "?c = Opened"
    show "\<exists>rows. snd (health e w) =
         w\<lparr>trace := trace w @ [Connect, Now, Append ?row, Now], sheet := sheet w @ rows\<rparr> \<and>
         (?a = Appended \<longrightarrow> rows = [?row])"
      by (rule exI [of _ "case ?a of Appended \<Rightarrow> [?row]
            | AppendRaises wr m \<Rightarrow> if wr then [?row] else []"])
         (simp add: up [OF c])
  qed
  have twice: "?c = Opened \<and> ?a = Appended \<and>
    connect_at e (Suc (calls is_Connect w)) = Opened \<and>
    append_at e (Suc (calls is_Append w))
      (test_row (strftime (clock_at e (calls is_Now w + 2)))) = Appended \<longrightarrow>
      sheet (snd (health e (snd (health e w)))) =
        sheet w @ [?row, test_row (strftime (clock_at e (calls is_Now w + 2)))]"
  proof
    assume h: "?c = Opened \<and> ?a = Appended \<and>
      connect_at e (Suc (calls is_Connect w)) = Opened \<and>
      append_at e (Suc (calls is_Append w))
        (test_row (strftime (clock_at e (calls is_Now w + 2)))) = Appended"
    define w1 where "w1 = snd (health e w)"
    from h up have w1: "w1 = w\<lparr>trace := trace w @ [Connect, Now, Append ?row, Now],
         sheet := sheet w @ [?row]\<rparr>"
      by (simp add: w1_def)
    have c1: "calls is_Connect w1 = Suc (calls is_Connect w)"
      and a1: "calls is_Append w1 = Suc (calls is_Append w)"
      and n1: "calls is_Now w1 = calls is_Now w + 2"
      by (simp_all add: w1 calls_def)
    have "connect_at e (calls is_Connect w1) = Opened" using h c1 by simp
    from health_up [of e w1, OF this] h
    have "sheet (snd (health e w1)) = sheet w1 @ [test_row (strftime (clock_at e (calls is_Now w + 2)))]"
      by (simp add: a1 n1)
    then show "sheet (snd (health e (snd (health e w)))) =
        sheet w @ [?row, test_row (strftime (clock_at e (calls is_Now w + 2)))]"
      unfolding w1_def [symmetric] by (simp add: w1)
  qed
  from first second third twice show ?thesis by blast
qed

theorem health_round_trip_witness:
  "(\<exists>rep. fst (health (sample_env (Raises ''rate limit'') Opened Appended) world0) =
        \<lparr>status_code = 200, body = HealthBody rep\<rparr> \<and>
      groq_llm rep = ''available'' \<and> google_sheets rep = ''connected'') \<and>
   sheet (snd (health (sample_env (Raises ''rate limit'') Opened Appended)
      (snd (health (sample_env (Raises ''rate limit'') Opened Appended) world0)))) =
     [[''2024-01-15 10:30:00'', ''TEST_POKEMON'', ''0''],
      [''2024-01-15 10:30:00'', ''TEST_POKEMON'', ''0'']] \<and>
   (\<exists>rep. fst (health (sample_env (Returns charizard) NoServiceAccountFile Appended) world0) =
        \<lparr>status_code = 200, body = HealthBody rep\<rparr> \<and>
      groq_llm rep = ''available'' \<and> google_sheets rep = ''disconnected'') \<and>
   snd (health (sample_env (Returns charizard) NoServiceAccountFile Appended) world0) =
     world0\<lparr>trace := [Connect, Now]\<rparr>"
proof -
  let ?up = "sample_env (Raises ''rate limit'') Opened Appended"
  let ?down = "sample_env (Returns charizard) NoServiceAccountFile Appended"
  have up: "connect_at ?up (calls is_Connect world0) = Opened"
    "connect_at ?up (Suc (calls is_Connect world0)) = Opened"
    "\<And>k r. append_at ?up k r = Appended"
    "\<And>k. strftime (clock_at ?up k) = ''2024-01-15 10:30:00''"
    by (simp_all add: sample_env_def morning_text)
  have down: "connect_at ?down (calls is_Connect world0) \<noteq> Opened"
    by (simp add: sample_env_def)
  note a = health_round_trip [of ?up world0]
  note b = health_round_trip [of ?down world0]
  from a up have "\<exists>rep. fst (health ?up world0) = \<lparr>status_code = 200, body = HealthBody rep\<rparr> \<and>
      groq_llm rep = ''available'' \<and> google_sheets rep = ''connected''"
    by auto
  moreover from a up(1,2,3) have "sheet (snd (health ?up (snd (health ?up world0)))) =
     sheet world0 @ [test_row (strftime (clock_at ?up (calls is_Now world0))),
                     test_row (strftime (clock_at ?up (calls is_Now world0 + 2)))]"
    by blast
  then have "sheet (snd (health ?up (snd (health ?up world0)))) =
     [[''2024-01-15 10:30:00'', ''TEST_POKEMON'', ''0''],
      [''2024-01-15 10:30:00'', ''TEST_POKEMON'', ''0'']]"
    by (simp add: up(4) test_row_def world0_def)
  moreover from b down
  have "\<exists>rep. fst (health ?down world0) = \<lparr>status_code = 200, body = HealthBody rep\<rparr> \<and>
      groq_llm rep = ''available'' \<and> google_sheets rep = ''disconnected''"
    by auto
  moreover from b down have "snd (health ?down world0) =
      world0\<lparr>trace := trace world0 @ [Connect, Now]\<rparr>"
    by blast
  then have "snd (health ?down world0) = world0\<lparr>trace := [Connect, Now]\<rparr>"
    by (simp add: world0_def)
  ultimately show ?thesis by blast
qed

section \<open>The text body comes first\<close>

text \<open>
  C10. For a payload with a body, \<^verbatim>\<open>analyze_with_llm\<close> works on the text body when it is
  true (not empty) and on the HTML body otherwise; every call of the model in a run gets that
  body as its input, and with a true text body the result and the world after the run are
  the same for every payload with this text body, whatever its HTML body is.
\<close>

theorem text_body_preferred:
  assumes "dict_get email_details ''body'' (JObj []) = Inr email_body"
    and "dict_get email_body ''textBody'' (JStr []) = Inr text_body"
    and "dict_get email_body ''htmlBody'' (JStr []) = Inr html_body"
  shows "select_body email_details = Inr (if truthy text_body then text_body else html_body) \<and>
         (\<forall>res w'. analyze_with_llm e email_details parsed_data w = (res, w') \<longrightarrow>
            (\<exists>evs. trace w' = trace w @ evs \<and>
               (\<forall>ev\<in>set evs. is_Invoke ev \<longrightarrow>
                  ev = Invoke (if truthy text_body then text_body else html_body)))) \<and>
         (truthy text_body \<longrightarrow>
            (\<forall>details2 body2 parsed2.
               dict_get details2 ''body'' (JObj []) = Inr body2 \<and>
               dict_get body2 ''textBody'' (JStr []) = Inr text_body \<longrightarrow>
               analyze_with_llm e details2 parsed2 w =
                 analyze_with_llm e email_details parsed_data w))"
proof -
  have sel: "select_body email_details = Inr (if truthy text_body then text_body else html_body)"
    using assms by (simp add: select_body_def)
  have tr: "\<forall>res w'. analyze_with_llm e email_details parsed_data w = (res, w') \<longrightarrow>
            (\<exists>evs. trace w' = trace w @ evs \<and>
               (\<forall>ev\<in>set evs. is_Invoke ev \<longrightarrow>
                  ev = Invoke (if truthy text_body then text_body else html_body)))"
  proof (intro allI impI)
    fix res w' assume "analyze_with_llm e email_details parsed_data w = (res, w')"
    from analyze_cases(2) [OF this] sel
    show "\<exists>evs. trace w' = trace w @ evs \<and>
               (\<forall>ev\<in>set evs. is_Invoke ev \<longrightarrow>
                  ev = Invoke (if truthy text_body then text_body else html_body))"
      by auto
  qed
  have ind: "truthy text_body \<longrightarrow>
            (\<forall>details2 body2 parsed2.
               dict_get details2 ''body'' (JObj []) = Inr body2 \<and>
               dict_get body2 ''textBody'' (JStr []) = Inr text_body \<longrightarrow>
               analyze_with_llm e details2 parsed2 w =
                 analyze_with_llm e email_details parsed_data w)"
  proof (intro allI impI)
    fix details2 body2 parsed2
    assume t: "truthy text_body"
      and "dict_get details2 ''body'' (JObj []) = Inr body2 \<and>
           dict_get body2 ''textBody'' (JStr []) = Inr text_body"
    then have "select_body details2 = Inr text_body" by (simp add: select_body_def)
    moreover from sel t have "select_body email_details = Inr text_body" by simp
    ultimately show "analyze_with_llm e details2 parsed2 w =
        analyze_with_llm e email_details parsed_data w"
      by (rule analyze_by_body)
  qed
  from sel tr ind show ?thesis by blast
qed

theorem text_body_preferred_witness:
  "select_body sale_details = Inr (JStr sale_text) \<and>
   (\<exists>evs. trace (world0\<lparr>trace := [Invoke (JStr sale_text), Connect, Now,
                       Append [''2024-01-15 10:30:00'', ''Charizard VMAX'', ''135.00'']],
           sheet := [[''2024-01-15 10:30:00'', ''Charizard VMAX'', ''135.00'']]\<rparr>) =
          trace world0 @ evs) \<and>
   analyze_with_llm (sample_env (Returns charizard) Opened Appended)
     (JObj [(''body'', JObj [(''textBody'', JStr sale_text),
                             (''htmlBody'', JStr ''<b>Pikachu</b> TOTAL PAYOUT: $1.00'')])])
     (JObj []) world0 =
   analyze_with_llm (sample_env (Returns charizard) Opened Appended)
     sale_details sale_parsed world0"
proof -
  let ?e = "sample_env (Returns charizard) Opened Appended"
  let ?b = "JObj [(''textBody'', JStr sale_text),
                  (''htmlBody'', JStr ''<strong>Pokemon Charizard VMAX</strong>'')]"
  let ?b2 = "JObj [(''textBody'', JStr sale_text),
                   (''htmlBody'', JStr ''<b>Pikachu</b> TOTAL PAYOUT: $1.00'')]"
  have 1: "dict_get sale_details ''body'' (JObj []) = Inr ?b"
    by (simp add: dict_get_def sale_details_def)
  have 2: "dict_get ?b ''textBody'' (JStr []) = Inr (JStr sale_text)"
    by (simp add: dict_get_def)
  have 3: "dict_get ?b ''htmlBody'' (JStr []) =
      Inr (JStr ''<strong>Pokemon Charizard VMAX</strong>'')"
    by (simp add: dict_get_def)
  have t: "truthy (JStr sale_text)" by (simp add: sale_text_def)
  have 4: "dict_get (JObj [(''body'', ?b2)]) ''body'' (JObj []) = Inr ?b2 \<and>
      dict_get ?b2 ''textBody'' (JStr []) = Inr (JStr sale_text)"
    by (simp add: dict_get_def)
  note inst = text_body_preferred [OF 1 2 3, of ?e sale_parsed world0]
  from inst t have "select_body sale_details = Inr (JStr sale_text)" by simp
  moreover from inst sale_run
  have "\<exists>evs. trace (world0\<lparr>trace := [Invoke (JStr sale_text), Connect, Now,
                       Append [''2024-01-15 10:30:00'', ''Charizard VMAX'', ''135.00'']],
           sheet := [[''2024-01-15 10:30:00'', ''Charizard VMAX'', ''135.00'']]\<rparr>) =
          trace world0 @ evs"
    by blast
  moreover from inst t 4
  have "analyze_with_llm ?e (JObj [(''body'', ?b2)]) (JObj []) world0 =
      analyze_with_llm ?e sale_details sale_parsed world0"
    by blast
  ultimately show ?thesis by blast
qed


end
